theory Spec2Isabelle
  imports Main
begin

section \<open>Python values shared by the modules\<close>

text \<open>
  Exceptions are values. The constructors name the exception classes that the sources
  raise or catch (\<^verbatim>\<open>CommandError\<close>, \<^verbatim>\<open>ConversionError\<close>, \<^verbatim>\<open>ValueError\<close>, \<^verbatim>\<open>KeyError\<close>,
  \<^verbatim>\<open>IndexError\<close>), the transport failures of the command client, and the failures of
  reading a file (\<^verbatim>\<open>ParseError\<close> of ElementTree, \<^verbatim>\<open>OSError\<close>, and the \<^verbatim>\<open>RecursionError\<close> of the
  interpreter). \<^verbatim>\<open>ParserError\<close> stands for whatever subclass of \<^verbatim>\<open>Exception\<close> the xsdata
  parser raises on a record.
\<close>

datatype error =
    CommandError
  | ConversionError
  | ValueError
  | KeyError
  | IndexError
  | ProtocolError
  | TimeoutError
  | ConnectionError
  | ParseError
  | OSError
  | RecursionError
  | ParserError string

subsection \<open>\<^verbatim>\<open>str(int)\<close>, as the f-strings of button.py format \<^verbatim>\<open>self.vid\<close> and the colours\<close>

definition digit_char :: "nat \<Rightarrow> char" where
  "digit_char d = ''0123456789'' ! d"

fun str_nat :: "nat \<Rightarrow> string" where
  "str_nat n = (if n < 10 then [digit_char n] else str_nat (n div 10) @ [digit_char (n mod 10)])"

declare str_nat.simps [simp del]

definition str_int :: "int \<Rightarrow> string" where
  "str_int i = (if i < 0 then CHR ''-'' # str_nat (nat (- i)) else str_nat (nat i))"

subsection \<open>\<^verbatim>\<open>int(str)\<close>\<close>

text \<open>
  Python's \<^verbatim>\<open>int\<close> on a string. A character is a code point below 256 here. CPython first
  turns every code point from 127 on into a space when it is Unicode whitespace (of these,
  U+0085 and U+00A0) and into a character that no number holds otherwise (no code point
  below 256 but the ASCII digits is a decimal digit); it leaves the code points below 127
  as they are. Then the whitespace of C (space, tab, line feed, vertical tab, form feed,
  carriage return) is stripped at both ends, one sign is allowed, and decimal digits
  follow, with single underscores between digits. Anything else, and more than 4300
  digits, is a \<^verbatim>\<open>ValueError\<close>.
\<close>

definition digit_val :: "char \<Rightarrow> nat option" where
  "digit_val c = map_of
     [(CHR ''0'', 0), (CHR ''1'', 1), (CHR ''2'', 2), (CHR ''3'', 3), (CHR ''4'', 4),
      (CHR ''5'', 5), (CHR ''6'', 6), (CHR ''7'', 7), (CHR ''8'', 8), (CHR ''9'', 9)] c"

definition to_ascii_space :: "char \<Rightarrow> char" where
  "to_ascii_space c = (if c = CHR 0x85 \<or> c = CHR 0xA0 then CHR '' '' else c)"

definition py_isspace :: "char \<Rightarrow> bool" where
  "py_isspace c = (c \<in> set [CHR '' '', CHR 0x09, CHR 0x0A, CHR 0x0B, CHR 0x0C, CHR 0x0D])"

definition strip :: "string \<Rightarrow> string" where
  "strip s = rev (dropWhile py_isspace (rev (dropWhile py_isspace s)))"

fun parse_digits :: "string \<Rightarrow> nat \<Rightarrow> bool \<Rightarrow> nat option" where
  "parse_digits [] acc prev = (if prev then Some acc else None)"
| "parse_digits (c # cs) acc prev =
     (case digit_val c of
        Some d \<Rightarrow> parse_digits cs (10 * acc + d) True
      | None \<Rightarrow> if c = CHR ''_'' \<and> prev then parse_digits cs acc False else None)"

definition py_int :: "string \<Rightarrow> error + int" where
  "py_int s =
     (let t = strip (map to_ascii_space s);
          neg = (case t of [] \<Rightarrow> False | c # _ \<Rightarrow> c = CHR ''-'');
          body = (case t of [] \<Rightarrow> [] | c # cs \<Rightarrow> if c = CHR ''+'' \<or> c = CHR ''-'' then cs else t)
      in if 4300 < length (filter (\<lambda>c. digit_val c \<noteq> None) body) then Inl ValueError
         else case parse_digits body 0 False of
                None \<Rightarrow> Inl ValueError
              | Some n \<Rightarrow> Inr (if neg then - int n else int n))"

subsection \<open>Tokens of a reply line\<close>

text \<open>
  Modelled from the spec: \<^verbatim>\<open>Converter.tokenize\<close> (aiovantage/command_client is not among
  the sources). The spec, section 6: "Tokenization: whitespace-separated tokens".
\<close>

definition is_space :: "char \<Rightarrow> bool" where
  "is_space c = (c \<in> set [CHR '' '', CHR 0x09, CHR 0x0A, CHR 0x0B, CHR 0x0C, CHR 0x0D])"

fun split_tokens :: "string \<Rightarrow> string \<Rightarrow> string list" where
  "split_tokens [] cur = (if cur = [] then [] else [cur])"
| "split_tokens (c # cs) cur =
     (if is_space c then (if cur = [] then split_tokens cs [] else cur # split_tokens cs [])
      else split_tokens cs (cur @ [c]))"

definition tokenize :: "string \<Rightarrow> string list" where
  "tokenize s = split_tokens s []"

section \<open>The property cache of a capability\<close>

text \<open>
  Modelled from the spec: \<^verbatim>\<open>Interface.update_properties\<close> (the base class of
  \<^verbatim>\<open>ButtonInterface\<close>, aiovantage/_object_interfaces/base.py, is not among the sources).
  The spec, section 4.4: "for each entry, compares against the current cached value using
  semantic equality (not identity); only genuinely changed entries are written and
  returned".

  The cache maps a property name to its value; the argument is the Python dict as the
  list of its items in insertion order. Semantic equality is the equality of the value
  type.
\<close>

fun update_properties :: "('k \<times> 'v) list \<Rightarrow> ('k \<Rightarrow> 'v) \<Rightarrow> 'k list \<times> ('k \<Rightarrow> 'v)" where
  "update_properties [] cache = ([], cache)"
| "update_properties ((name, val) # rest) cache =
     (if cache name \<noteq> val
      then (let (changed, cache') = update_properties rest (cache(name := val))
            in (name # changed, cache'))
      else update_properties rest cache)"

text \<open>The cache after a sequence of calls, each with its own mapping.\<close>

fun update_sequence :: "('k \<times> 'v) list list \<Rightarrow> ('k \<Rightarrow> 'v) \<Rightarrow> ('k \<Rightarrow> 'v)" where
  "update_sequence [] cache = cache"
| "update_sequence (m # ms) cache = update_sequence ms (snd (update_properties m cache))"

section \<open>button.py: \<^verbatim>\<open>ButtonInterface\<close>\<close>

datatype State = Up | Down

datatype BlinkRate = Fast | Medium | Slow | VerySlow | Off

text \<open>The value of a \<^verbatim>\<open>StrEnum\<close> member, which is also how an f-string prints it.\<close>

fun BlinkRate_value :: "BlinkRate \<Rightarrow> string" where
  "BlinkRate_value Fast = ''FAST''"
| "BlinkRate_value Medium = ''MEDIUM''"
| "BlinkRate_value Slow = ''SLOW''"
| "BlinkRate_value VerySlow = ''VERYSLOW''"
| "BlinkRate_value Off = ''OFF''"

text \<open>\<^verbatim>\<open>ButtonInterface.BlinkRate(blink_str)\<close>: the member with that value, or \<^verbatim>\<open>ValueError\<close>.\<close>

definition BlinkRate_of :: "string \<Rightarrow> error + BlinkRate" where
  "BlinkRate_of s =
     (if s = ''FAST'' then Inr Fast
      else if s = ''MEDIUM'' then Inr Medium
      else if s = ''SLOW'' then Inr Slow
      else if s = ''VERYSLOW'' then Inr VerySlow
      else if s = ''OFF'' then Inr Off
      else Inl ValueError)"

text \<open>
  The values the four properties of the class hold. A property is a \<^verbatim>\<open>pvalue option\<close>:
  \<open>None\<close> is Python's \<^verbatim>\<open>None\<close>, the Unknown of the spec.
\<close>

datatype pvalue =
    StateV State
  | ColorV int int int
  | BlinkV BlinkRate

text \<open>
  A button: its id, whether it is bound to a command client (\<^verbatim>\<open>self.command_client\<close> is
  an object or \<^verbatim>\<open>None\<close>), and its attributes by name, as \<^verbatim>\<open>getattr\<close> and \<^verbatim>\<open>setattr\<close>
  reach them.
\<close>

record button =
  vid :: int
  command_client :: bool
  props :: "string \<Rightarrow> pvalue option"

text \<open>
  The class attributes of lines 46 to 50:
  \<^verbatim>\<open>state = State.Up\<close>, and \<^verbatim>\<open>None\<close> for the three LED properties.
\<close>

definition Button_defaults :: "string \<Rightarrow> pvalue option" where
  "Button_defaults = (\<lambda>name. None)(''state'' := Some (StateV Up))"

definition new_button :: "int \<Rightarrow> bool \<Rightarrow> button" where
  "new_button i client = \<lparr>vid = i, command_client = client, props = Button_defaults\<rparr>"

definition update_button :: "(string \<times> pvalue option) list \<Rightarrow> button \<Rightarrow> string list \<times> button" where
  "update_button kvs b =
     (let (changed, cache) = update_properties kvs (props b) in (changed, b\<lparr>props := cache\<rparr>))"

subsection \<open>The command client, seen from the button\<close>

text \<open>
  What the client has been asked so far is state; what the controller answers is the
  environment. A \<open>remote\<close> gives the outcome of the latest request from the whole list of
  requests: for an INVOKE the token that carries the result, or the exception the call
  raises; for a raw command the response lines, or the exception.
\<close>

datatype request =
    Invoke int string "pvalue list"
  | Raw string

record remote =
  invoke_reply :: "request list \<Rightarrow> error + string"
  raw_reply :: "request list \<Rightarrow> error + string list"

text \<open>
  The world outside the button: the requests sent, and the warnings logged (the id of
  the object and the exception).
\<close>

record world =
  sent :: "request list"
  warnings :: "(int \<times> error) list"

definition raw_request :: "remote \<Rightarrow> string \<Rightarrow> world \<Rightarrow> (error + string list) \<times> world" where
  "raw_request rem line w =
     (let w' = w\<lparr>sent := sent w @ [Raw line]\<rparr> in (raw_reply rem (sent w'), w'))"

text \<open>
  Modelled from the spec: \<^verbatim>\<open>Interface.invoke\<close> (base.py is not among the sources). The
  spec, section 4.2: the invoker "sends the formatted line, then waits for the next reply
  line", and fails with the error of the reply. Every call is one request to the
  controller. An object without a command client has nothing to send with and raises
  \<^verbatim>\<open>ValueError\<close>, as \<^verbatim>\<open>set_led\<close> does at line 209.
\<close>

definition invoke :: "remote \<Rightarrow> button \<Rightarrow> string \<Rightarrow> pvalue list \<Rightarrow> world \<Rightarrow> (error + string) \<times> world" where
  "invoke rem b meth args w =
     (if \<not> command_client b then (Inl ValueError, w)
      else (let w' = w\<lparr>sent := sent w @ [Invoke (vid b) meth args]\<rparr>
            in (invoke_reply rem (sent w'), w')))"

text \<open>
  The result codec of \<^verbatim>\<open>get_state\<close>, whose return type is \<^verbatim>\<open>State\<close>: the reply carries
  \<^verbatim>\<open>Up\<close> or \<^verbatim>\<open>Down\<close> (the comment at line 64), or the number of the member; any other
  token is a \<^verbatim>\<open>ConversionError\<close> (the spec, section 4.2).
\<close>

definition State_of :: "string \<Rightarrow> error + State" where
  "State_of tok =
     (if tok = ''Up'' \<or> tok = ''0'' then Inr Up
      else if tok = ''Down'' \<or> tok = ''1'' then Inr Down
      else Inl ConversionError)"

subsection \<open>Methods\<close>

text \<open>
  \<^verbatim>\<open>get_state\<close>, lines 53 to 65. The body returns the result of the \<^verbatim>\<open>invoke\<close>, decoded to a
  \<^verbatim>\<open>State\<close>; it does not touch the cache. The decorator of line 53 names the property,
  \<^verbatim>\<open>state\<close>, that the inherited \<^verbatim>\<open>fetch_state\<close> fills from this getter.
\<close>

definition get_state :: "remote \<Rightarrow> bool \<Rightarrow> button \<Rightarrow> world \<Rightarrow> (error + State) \<times> button \<times> world" where
  "get_state rem hw b w =
     (case invoke rem b (if hw then ''Button.GetStateHW'' else ''Button.GetState'') [] w of
        (Inl e, w') \<Rightarrow> (Inl e, b, w')
      | (Inr tok, w') \<Rightarrow> (State_of tok, b, w'))"

text \<open>
  \<^verbatim>\<open>set_state\<close>, lines 67 to 77: one \<^verbatim>\<open>invoke\<close> with the state as its argument; the body
  returns nothing and does not touch the cache.
\<close>

definition set_state :: "remote \<Rightarrow> State \<Rightarrow> bool \<Rightarrow> button \<Rightarrow> world \<Rightarrow> (error + unit) \<times> button \<times> world" where
  "set_state rem s sw b w =
     (case invoke rem b (if sw then ''Button.SetStateSW'' else ''Button.SetState'') [StateV s] w of
        (Inl e, w') \<Rightarrow> (Inl e, b, w')
      | (Inr tok, w') \<Rightarrow> (Inr (), b, w'))"

text \<open>\<^verbatim>\<open>set_led\<close>, lines 192 to 222, and \<^verbatim>\<open>clear_led\<close>, lines 224 to 230.\<close>

definition led_command :: "int \<Rightarrow> int \<times> int \<times> int \<Rightarrow> int \<times> int \<times> int \<Rightarrow> BlinkRate \<Rightarrow> string" where
  "led_command i active inactive blink_rate =
     (case active of (r1, g1, b1) \<Rightarrow> case inactive of (r2, g2, b2) \<Rightarrow>
        ''LED '' @ str_int i @ '' '' @ str_int r1 @ '' '' @ str_int g1 @ '' '' @ str_int b1
          @ '' '' @ str_int r2 @ '' '' @ str_int g2 @ '' '' @ str_int b2
          @ '' '' @ BlinkRate_value blink_rate)"

definition led_dict :: "int \<times> int \<times> int \<Rightarrow> int \<times> int \<times> int \<Rightarrow> BlinkRate \<Rightarrow> (string \<times> pvalue option) list" where
  "led_dict active inactive blink_rate =
     (case active of (r1, g1, b1) \<Rightarrow> case inactive of (r2, g2, b2) \<Rightarrow>
        [(''led_active_color'', Some (ColorV r1 g1 b1)),
         (''led_inactive_color'', Some (ColorV r2 g2 b2)),
         (''led_blink_rate'', Some (BlinkV blink_rate))])"

definition set_led ::
  "remote \<Rightarrow> int \<times> int \<times> int \<Rightarrow> int \<times> int \<times> int \<Rightarrow> BlinkRate \<Rightarrow> button \<Rightarrow> world
     \<Rightarrow> (error + unit) \<times> button \<times> world" where
  "set_led rem active inactive blink_rate b w =
     (if \<not> command_client b then (Inl ValueError, b, w)
      else case raw_request rem (led_command (vid b) active inactive blink_rate) w of
             (Inl e, w') \<Rightarrow> (Inl e, b, w')
           | (Inr response, w') \<Rightarrow>
               (Inr (), snd (update_button (led_dict active inactive blink_rate) b), w'))"

definition clear_led :: "remote \<Rightarrow> button \<Rightarrow> world \<Rightarrow> (error + unit) \<times> button \<times> world" where
  "clear_led rem b w = set_led rem (0, 0, 0) (0, 0, 0) Off b w"

text \<open>\<^verbatim>\<open>press\<close>, \<^verbatim>\<open>release\<close> and \<^verbatim>\<open>press_and_release\<close>, lines 233 to 244.\<close>

definition press :: "remote \<Rightarrow> button \<Rightarrow> world \<Rightarrow> (error + unit) \<times> button \<times> world" where
  "press rem b w = set_state rem Down False b w"

definition release :: "remote \<Rightarrow> button \<Rightarrow> world \<Rightarrow> (error + unit) \<times> button \<times> world" where
  "release rem b w = set_state rem Up False b w"

definition press_and_release :: "remote \<Rightarrow> button \<Rightarrow> world \<Rightarrow> (error + unit) \<times> button \<times> world" where
  "press_and_release rem b w =
     (case press rem b w of
        (Inl e, b', w') \<Rightarrow> (Inl e, b', w')
      | (Inr u, b', w') \<Rightarrow> release rem b' w')"

text \<open>
  The round trip of the spec's section 8: \<^verbatim>\<open>set_state(state)\<close> and then \<^verbatim>\<open>get_state()\<close>
  without \<^verbatim>\<open>hw\<close>. An exception of the first call ends the sequence.
\<close>

definition set_state_then_get_state ::
  "remote \<Rightarrow> State \<Rightarrow> bool \<Rightarrow> button \<Rightarrow> world \<Rightarrow> (error + State) \<times> button \<times> world" where
  "set_state_then_get_state rem s sw b w =
     (case set_state rem s sw b w of
        (Inl e, b1, w1) \<Rightarrow> (Inl e, b1, w1)
      | (Inr u, b1, w1) \<Rightarrow> get_state rem False b1 w1)"

text \<open>
  The dict that \<^verbatim>\<open>fetch_state\<close> (lines 267 to 273) and \<^verbatim>\<open>handle_category_status\<close>
  (lines 296 to 302) build from the six colour tokens and the blink rate: every \<^verbatim>\<open>int\<close>
  and the \<^verbatim>\<open>BlinkRate\<close> lookup can raise \<^verbatim>\<open>ValueError\<close>, in the order of the source.
\<close>

definition led_tokens_dict ::
  "string \<Rightarrow> string \<Rightarrow> string \<Rightarrow> string \<Rightarrow> string \<Rightarrow> string \<Rightarrow> string
     \<Rightarrow> error + (string \<times> pvalue option) list" where
  "led_tokens_dict r1 g1 b1 r2 g2 b2 blink_str =
     (case py_int r1 of Inl e \<Rightarrow> Inl e | Inr r1' \<Rightarrow>
     (case py_int g1 of Inl e \<Rightarrow> Inl e | Inr g1' \<Rightarrow>
     (case py_int b1 of Inl e \<Rightarrow> Inl e | Inr b1' \<Rightarrow>
     (case py_int r2 of Inl e \<Rightarrow> Inl e | Inr r2' \<Rightarrow>
     (case py_int g2 of Inl e \<Rightarrow> Inl e | Inr g2' \<Rightarrow>
     (case py_int b2 of Inl e \<Rightarrow> Inl e | Inr b2' \<Rightarrow>
     (case BlinkRate_of blink_str of Inl e \<Rightarrow> Inl e | Inr rate \<Rightarrow>
        Inr (led_dict (r1', g1', b1') (r2', g2', b2') rate))))))))"

text \<open>
  Modelled from the spec: \<^verbatim>\<open>Interface.fetch_state\<close>, the \<^verbatim>\<open>super().fetch_state()\<close> of line
  254 (base.py is not among the sources). The spec, section 4.4: it "invokes every declared
  cached-property getter for the bound object, aggregating changed-name lists; a failure
  fetching one property (decoding or command error) is caught, logged, and does not abort
  fetching the remaining properties", and every update of the cache goes through
  \<^verbatim>\<open>update_properties\<close>. The one getter that button.py binds to a property is \<^verbatim>\<open>get_state\<close>,
  for \<^verbatim>\<open>state\<close>; any other exception passes through.
\<close>

definition Interface_fetch_state ::
  "remote \<Rightarrow> button \<Rightarrow> world \<Rightarrow> (error + string list) \<times> button \<times> world" where
  "Interface_fetch_state rem b w =
     (case get_state rem False b w of
        (Inr s, b', w') \<Rightarrow>
          (let (changed, b'') = update_button [(''state'', Some (StateV s))] b'
           in (Inr changed, b'', w'))
      | (Inl e, b', w') \<Rightarrow>
          (if e = CommandError \<or> e = ConversionError
           then (Inr [], b', w'\<lparr>warnings := warnings w' @ [(vid b, e)]\<rparr>)
           else (Inl e, b', w')))"

text \<open>
  \<^verbatim>\<open>fetch_state\<close>, lines 251 to 278. The tuple assignment of line 264 needs exactly ten
  tokens and raises \<^verbatim>\<open>ValueError\<close> otherwise; \<^verbatim>\<open>response[-1]\<close> of an empty response is an
  \<^verbatim>\<open>IndexError\<close>, which the \<^verbatim>\<open>except\<close> clause of line 275 does not name.
\<close>

definition getled_dict :: "string list \<Rightarrow> error + (string \<times> pvalue option) list" where
  "getled_dict response =
     (if response = [] then Inl IndexError
      else case tokenize (last response) of
             [t0, t1, t2, r1, g1, b1, r2, g2, b2, blink_str] \<Rightarrow>
               led_tokens_dict r1 g1 b1 r2 g2 b2 blink_str
           | _ \<Rightarrow> Inl ValueError)"

definition fetch_state :: "remote \<Rightarrow> button \<Rightarrow> world \<Rightarrow> (error + string list) \<times> button \<times> world" where
  "fetch_state rem b w =
     (case Interface_fetch_state rem b w of
        (Inl e, b', w') \<Rightarrow> (Inl e, b', w')
      | (Inr changed, b', w') \<Rightarrow>
          (if \<not> command_client b' then (Inr changed, b', w')
           else case raw_request rem (''GETLED '' @ str_int (vid b')) w' of (outcome, w'') \<Rightarrow>
             (case (case outcome of Inl e \<Rightarrow> Inl e | Inr response \<Rightarrow> getled_dict response) of
                Inr d \<Rightarrow>
                  (let (led_changed, b'') = update_button d b'
                   in (Inr (changed @ led_changed), b'', w''))
              | Inl e \<Rightarrow>
                  (if e = CommandError \<or> e = ConversionError \<or> e = ValueError
                   then (Inr changed, b', w''\<lparr>warnings := warnings w'' @ [(vid b', e)]\<rparr>)
                   else (Inl e, b', w'')))))"

text \<open>
  What the controller's answers to the two requests of \<^verbatim>\<open>fetch_state\<close> amount to, for a
  button with a command client: the state that the reply to \<^verbatim>\<open>Button.GetState\<close> decodes
  to, and the dict that the reply to \<^verbatim>\<open>GETLED\<close> decodes to, or the exception raised on
  the way.
\<close>

definition state_outcome :: "remote \<Rightarrow> button \<Rightarrow> world \<Rightarrow> error + State" where
  "state_outcome rem b w =
     (case invoke_reply rem (sent w @ [Invoke (vid b) ''Button.GetState'' []]) of
        Inl e \<Rightarrow> Inl e
      | Inr tok \<Rightarrow> State_of tok)"

definition led_outcome :: "remote \<Rightarrow> button \<Rightarrow> world \<Rightarrow> error + (string \<times> pvalue option) list" where
  "led_outcome rem b w =
     (case raw_reply rem (sent w @ [Invoke (vid b) ''Button.GetState'' [],
                                    Raw (''GETLED '' @ str_int (vid b))]) of
        Inl e \<Rightarrow> Inl e
      | Inr response \<Rightarrow> getled_dict response)"

text \<open>
  \<^verbatim>\<open>handle_category_status\<close>, lines 280 to 304. \<^verbatim>\<open>btn_map[args[0]]\<close> raises \<^verbatim>\<open>IndexError\<close>
  without arguments and \<^verbatim>\<open>KeyError\<close> on any other word; the tuple assignment of line 295
  needs eight arguments. Modelled from the spec: the \<^verbatim>\<open>handle_category_status\<close> of the base
  class (line 304), section 4.4: a category that no capability recognises "is a no-op".
\<close>

definition btn_map :: "string \<Rightarrow> State option" where
  "btn_map = [''PRESS'' \<mapsto> Down, ''RELEASE'' \<mapsto> Up]"

definition handle_category_status :: "string \<Rightarrow> string list \<Rightarrow> button \<Rightarrow> (error + string list) \<times> button" where
  "handle_category_status category args b =
     (if category = ''BTN'' then
        (case args of
           [] \<Rightarrow> (Inl IndexError, b)
         | a # rest \<Rightarrow>
             (case btn_map a of
                None \<Rightarrow> (Inl KeyError, b)
              | Some s \<Rightarrow>
                  (let (changed, b') = update_button [(''state'', Some (StateV s))] b
                   in (Inr changed, b'))))
      else if category = ''LED'' then
        (case take 8 args of
           [st, r1, g1, b1, r2, g2, b2, blink_str] \<Rightarrow>
             (case led_tokens_dict r1 g1 b1 r2 g2 b2 blink_str of
                Inl e \<Rightarrow> (Inl e, b)
              | Inr d \<Rightarrow> (let (changed, b') = update_button d b in (Inr changed, b')))
         | _ \<Rightarrow> (Inl ValueError, b))
      else (Inr [], b))"

subsection \<open>Sequences of operations on one button\<close>

text \<open>
  The operations of the class that reach the command client or the cache, and a run of
  them. The caller may catch an exception or not: what a run keeps is the button and the
  world as each operation leaves them.
\<close>

datatype operation =
    GetState bool
  | SetState State bool
  | SetLed "int \<times> int \<times> int" "int \<times> int \<times> int" BlinkRate
  | ClearLed
  | Press
  | Release
  | PressAndRelease
  | FetchState
  | CategoryStatus string "string list"

fun perform :: "remote \<Rightarrow> operation \<Rightarrow> button \<times> world \<Rightarrow> button \<times> world" where
  "perform rem (GetState hw) (b, w) = snd (get_state rem hw b w)"
| "perform rem (SetState s sw) (b, w) = snd (set_state rem s sw b w)"
| "perform rem (SetLed active inactive blink_rate) (b, w) = snd (set_led rem active inactive blink_rate b w)"
| "perform rem ClearLed (b, w) = snd (clear_led rem b w)"
| "perform rem Press (b, w) = snd (press rem b w)"
| "perform rem Release (b, w) = snd (release rem b w)"
| "perform rem PressAndRelease (b, w) = snd (press_and_release rem b w)"
| "perform rem FetchState (b, w) = snd (fetch_state rem b w)"
| "perform rem (CategoryStatus category args) (b, w) = (snd (handle_category_status category args b), w)"

definition run :: "remote \<Rightarrow> operation list \<Rightarrow> button \<times> world \<Rightarrow> button \<times> world" where
  "run rem ops s = fold (perform rem) ops s"

text \<open>The operations that write an LED property when they succeed.\<close>

fun writes_led :: "operation \<Rightarrow> bool" where
  "writes_led (SetLed active inactive blink_rate) = True"
| "writes_led ClearLed = True"
| "writes_led FetchState = True"
| "writes_led (CategoryStatus category args) = (category = ''LED'')"
| "writes_led other = False"

definition led_names :: "string list" where
  "led_names = [''led_active_color'', ''led_inactive_color'', ''led_blink_rate'']"

section \<open>file_loader.py: objects of a Design Center backup\<close>

text \<open>
  An element of \<^verbatim>\<open>xml.etree.ElementTree\<close>: tag, attributes, text and children.
\<close>

datatype xml = Element (tag: string) (attrib: "(string \<times> string) list") (content: string) (children: "xml list")













section \<open>Controllers\<close>

text \<open>
  An object of the system as a controller keeps it: its id and its type
  (\<^verbatim>\<open>vantage_type()\<close>), with its name.
\<close>

record system_object =
  object_vid :: int
  vantage_type :: string
  object_name :: string

datatype StatusType = OBJECT | CATEGORY

datatype controller_class = ButtonsController | EnclosuresController | OtherController string

text \<open>
  A subscription of the event stream: its handle (what the unsubscribe function removes),
  the controller whose \<^verbatim>\<open>_handle_status_event\<close> is the callback, and what it listens to:
  status categories, or the enhanced log.
\<close>

datatype feed = Status "string list" | EnhancedLog

record subscription =
  handle :: nat
  callback :: nat
  feed :: feed

record event_stream =
  subscriptions :: "subscription list"
  next_handle :: nat

text \<open>
  A controller: its class, the class attribute \<^verbatim>\<open>vantage_types\<close>, the categories its
  objects' capabilities declare, its identity as a callback, the registry of its objects
  by id, \<^verbatim>\<open>_initialized\<close>, \<^verbatim>\<open>_status_type\<close>, \<^verbatim>\<open>_status_unsubs\<close>, and the live discovery queries
  it has made (the types asked for), which the config client would see.
\<close>

record controller =
  cls :: controller_class
  vantage_types :: "string list"
  status_categories :: "string list"
  ident :: nat
  items :: "int \<Rightarrow> system_object option"
  initialized :: bool
  status_type :: "StatusType option"
  status_unsubs :: "nat list"
  discoveries :: "string list list"

text \<open>
  buttons.py line 9 and enclosures.py line 16: the types of the two controllers of the
  sources, as they are when the client constructs them.
\<close>

definition new_controller :: "controller_class \<Rightarrow> string list \<Rightarrow> string list \<Rightarrow> nat \<Rightarrow> controller" where
  "new_controller k types categories i =
     \<lparr>cls = k, vantage_types = types, status_categories = categories, ident = i,
      items = Map.empty, initialized = False, status_type = None, status_unsubs = [],
      discoveries = []\<rparr>"

definition new_ButtonsController :: "nat \<Rightarrow> controller" where
  "new_ButtonsController i = new_controller ButtonsController [''Button''] [''BTN''] i"

definition new_EnclosuresController :: "nat \<Rightarrow> controller" where
  "new_EnclosuresController i = new_controller EnclosuresController [''Enclosure''] [] i"

text \<open>
  Modelled from the spec: \<^verbatim>\<open>EventStream.subscribe_status\<close> and the subscription to the
  enhanced log (aiovantage/command_client is not among the sources). The spec, section
  4.3: \<^verbatim>\<open>subscribeStatus(callback, category) -> unsubscribeFn\<close> "registers a callback";
  section 3: "unsubscribe is idempotent and removes exactly one entry".
\<close>

definition subscribe :: "nat \<Rightarrow> feed \<Rightarrow> event_stream \<Rightarrow> nat \<times> event_stream" where
  "subscribe cb f es =
     (next_handle es,
      es\<lparr>subscriptions := subscriptions es @ [\<lparr>handle = next_handle es, callback = cb, feed = f\<rparr>],
         next_handle := Suc (next_handle es)\<rparr>)"

definition subscribe_status :: "nat \<Rightarrow> string list \<Rightarrow> event_stream \<Rightarrow> nat \<times> event_stream" where
  "subscribe_status cb categories es = subscribe cb (Status categories) es"

definition unsubscribe :: "nat \<Rightarrow> event_stream \<Rightarrow> event_stream" where
  "unsubscribe h es = es\<lparr>subscriptions := filter (\<lambda>s. handle s \<noteq> h) (subscriptions es)\<rparr>"

text \<open>
  Modelled from the spec: \<^verbatim>\<open>Controller.enable_state_monitoring\<close> and
  \<^verbatim>\<open>Controller.disable_state_monitoring\<close> (aiovantage/_controllers/base.py is not among the
  sources). The spec, section 4.5: it "determines StatusType for this controller's object
  type -- prefer a consolidated enhanced log feed if the remote firmware advertises it,
  else fall back to per-category STATUS subscriptions", "stores the resulting unsubscribe
  functions", and "Re-entrant calls are idempotent: calling twice without an intervening
  disableStateMonitoring() must not create duplicate subscriptions"; disabling "invokes
  every stored unsubscribe function and clears the list". \<^verbatim>\<open>OBJECT\<close> is the status type of
  the enhanced log, by the comment at lines 15 to 18 of buttons.py. Whether the firmware
  advertises the enhanced log is the parameter \<open>enhanced\<close>.
\<close>

definition Controller_enable_state_monitoring ::
  "bool \<Rightarrow> controller \<Rightarrow> event_stream \<Rightarrow> controller \<times> event_stream" where
  "Controller_enable_state_monitoring enhanced c es =
     (if status_unsubs c \<noteq> [] then (c, es)
      else if enhanced then
        (let (unsub, es') = subscribe (ident c) EnhancedLog es
         in (c\<lparr>status_type := Some OBJECT, status_unsubs := [unsub]\<rparr>, es'))
      else
        (let (unsub, es') = subscribe_status (ident c) (status_categories c) es
         in (c\<lparr>status_type := Some CATEGORY, status_unsubs := [unsub]\<rparr>, es')))"

definition disable_state_monitoring :: "controller \<Rightarrow> event_stream \<Rightarrow> controller \<times> event_stream" where
  "disable_state_monitoring c es =
     (c\<lparr>status_unsubs := []\<rparr>, fold unsubscribe (status_unsubs c) es)"

text \<open>\<^verbatim>\<open>ButtonsController.enable_state_monitoring\<close>, buttons.py lines 11 to 22.\<close>

definition ButtonsController_enable_state_monitoring ::
  "bool \<Rightarrow> controller \<Rightarrow> event_stream \<Rightarrow> controller \<times> event_stream" where
  "ButtonsController_enable_state_monitoring enhanced c es =
     (let (c1, es1) = Controller_enable_state_monitoring enhanced c es
      in if status_type c1 = Some OBJECT then
           (let (led_unsub, es2) = subscribe_status (ident c1) [''LED''] es1
            in (c1\<lparr>status_unsubs := status_unsubs c1 @ [led_unsub]\<rparr>, es2))
         else (c1, es1))"

text \<open>The method a controller of a given class runs.\<close>

definition enable_state_monitoring :: "bool \<Rightarrow> controller \<Rightarrow> event_stream \<Rightarrow> controller \<times> event_stream" where
  "enable_state_monitoring enhanced c es =
     (if cls c = ButtonsController then ButtonsController_enable_state_monitoring enhanced c es
      else Controller_enable_state_monitoring enhanced c es)"

text \<open>
  Modelled from the spec: \<^verbatim>\<open>Controller.inject\<close> and \<^verbatim>\<open>Controller.initialize\<close> (base.py of
  the controllers is not among the sources). The spec, section 4.5: \<^verbatim>\<open>inject(obj)\<close>
  "pre-populates a single Object ... and marks the controller as already populated for its
  type so that a later initialize() skips live discovery"; \<^verbatim>\<open>initialize\<close>: "if
  pre-population already occurred ..., skip live discovery for this type entirely;
  otherwise query the discovery collaborator for all objects of the declared
  vantage_types and construct Object instances ... for each. Then, if requested, call
  fetchState() and enableStateMonitoring()". The docstring of \<^verbatim>\<open>_inject_from_file\<close> names
  the mark: \<^verbatim>\<open>_initialized = True\<close>. The discovery collaborator is the parameter
  \<open>discover\<close>: the objects of the given types, or the failure of the query. Fetching state
  changes the property caches of the objects, which the registry does not hold.
\<close>

definition inject :: "system_object \<Rightarrow> controller \<Rightarrow> controller" where
  "inject obj c = c\<lparr>items := (items c)(object_vid obj \<mapsto> obj), initialized := True\<rparr>"



section \<open>__init__.py: the client\<close>

text \<open>
  The backup file the client was given: whether \<^verbatim>\<open>Path.is_file()\<close> holds, and what
  \<^verbatim>\<open>ElementTree.parse\<close> makes of it.
\<close>

record config_file =
  is_file :: bool
  parse :: "error + xml"

text \<open>
  The client: the set \<^verbatim>\<open>_controllers\<close> as the list of one iteration over it,
  \<^verbatim>\<open>_local_config_file\<close>, and the event stream.
\<close>

record vantage =
  controllers :: "controller list"
  local_config_file :: "config_file option"
  stream :: event_stream

text \<open>
  \<^verbatim>\<open>__getitem__\<close>, \<^verbatim>\<open>__contains__\<close> and \<^verbatim>\<open>get\<close>, lines 145 to 154 and 301 to 313.
  \<^verbatim>\<open>vid in controller\<close> and \<^verbatim>\<open>controller[vid]\<close> are the membership test and the lookup of
  the registry.
\<close>

fun getitem_loop :: "controller list \<Rightarrow> int \<Rightarrow> error + system_object" where
  "getitem_loop [] i = Inl KeyError"
| "getitem_loop (c # cs) i =
     (case items c i of
        Some obj \<Rightarrow> Inr obj
      | None \<Rightarrow> getitem_loop cs i)"

definition getitem :: "vantage \<Rightarrow> int \<Rightarrow> error + system_object" where
  "getitem v i = getitem_loop (controllers v) i"

definition contains :: "vantage \<Rightarrow> int \<Rightarrow> bool" where
  "contains v i = list_ex (\<lambda>c. items c i \<noteq> None) (controllers v)"

definition get :: "vantage \<Rightarrow> int \<Rightarrow> error + system_object option" where
  "get v i =
     (case getitem v i of
        Inr obj \<Rightarrow> Inr (Some obj)
      | Inl e \<Rightarrow> if e = KeyError then Inr None else Inl e)"







section \<open>Concrete inputs\<close>

text \<open>A client that has sent nothing and logged nothing.\<close>

definition world0 :: world where
  "world0 = \<lparr>sent = [], warnings = []\<rparr>"

text \<open>
  Controllers that answer every GETLED with the line of the spec's example, and report
  the button down, or up; one whose GETLED fails; one whose GetState reply cannot be
  decoded.
\<close>

definition getled_line :: string where
  "getled_line = ''R:GETLED 447 1 255 0 0 0 0 0 OFF''"

definition remote_down :: remote where
  "remote_down = \<lparr>invoke_reply = (\<lambda>reqs. Inr ''Down''), raw_reply = (\<lambda>reqs. Inr [getled_line])\<rparr>"

definition remote_up :: remote where
  "remote_up = \<lparr>invoke_reply = (\<lambda>reqs. Inr ''Up''), raw_reply = (\<lambda>reqs. Inr [getled_line])\<rparr>"

definition remote_led_error :: remote where
  "remote_led_error = \<lparr>invoke_reply = (\<lambda>reqs. Inr ''Down''), raw_reply = (\<lambda>reqs. Inl CommandError)\<rparr>"

definition remote_state_error :: remote where
  "remote_state_error = \<lparr>invoke_reply = (\<lambda>reqs. Inr ''Pressed''), raw_reply = (\<lambda>reqs. Inr [getled_line])\<rparr>"

text \<open>
  A backup file with a button, a record of a type that no class has, a load whose id
  does not parse, and an empty record; a type map and a parser that reads the id from
  the attribute \<^verbatim>\<open>VID\<close>.
\<close>

definition example_root :: xml where
  "example_root =
     Element ''Project'' [] []
       [Element ''Objects'' [] []
          [Element ''Object'' [] [] [Element ''Button'' [(''VID'', ''447'')] ''Keypad 1'' []],
           Element ''Object'' [] [] [Element ''WireLink'' [(''VID'', ''12'')] [] []],
           Element ''Object'' [] [] [Element ''Load'' [(''VID'', ''4x7'')] ''Fan'' []],
           Element ''Object'' [] [] []]]"






definition example_file :: config_file where
  "example_file = \<lparr>is_file = True, parse = Inr example_root\<rparr>"

text \<open>
  A client with a buttons controller and a loads controller, no event subscriptions yet,
  given that file; and a live configuration with one load.
\<close>

definition example_stream :: event_stream where
  "example_stream = \<lparr>subscriptions = [], next_handle = 0\<rparr>"

definition example_client :: vantage where
  "example_client =
     \<lparr>controllers = [new_ButtonsController 0,
                      new_controller (OtherController ''LoadsController'') [''Load''] [''LOAD''] 1],
      local_config_file = Some example_file,
      stream = example_stream\<rparr>"


text \<open>The same client with the button of the file and one load in its registries.\<close>

definition example_populated :: vantage where
  "example_populated =
     example_client
       \<lparr>controllers :=
          [inject \<lparr>object_vid = 447, vantage_type = ''Button'', object_name = ''Keypad 1''\<rparr>
             (new_ButtonsController 0),
           inject \<lparr>object_vid = 12, vantage_type = ''Load'', object_name = ''Lamp''\<rparr>
             (new_controller (OtherController ''LoadsController'') [''Load''] [''LOAD''] 1)]\<rparr>"

section \<open>Theorems\<close>

subsection \<open>The diff of \<^verbatim>\<open>update_properties\<close>\<close>

lemma update_properties_fst:
  "distinct (map fst kvs) \<Longrightarrow>
   fst (update_properties kvs cache) = map fst (filter (\<lambda>kv. cache (fst kv) \<noteq> snd kv) kvs)"
proof (induction kvs arbitrary: cache)
  case Nil
  then show ?case by simp
next
  case (Cons kv kvs)
  obtain k v where kv: "kv = (k, v)" by (cases kv)
  from Cons.prems kv have notin: "k \<notin> fst ` set kvs" and dist: "distinct (map fst kvs)"
    by auto
  have same: "filter (\<lambda>kv. (cache(k := v)) (fst kv) \<noteq> snd kv) kvs = filter (\<lambda>kv. cache (fst kv) \<noteq> snd kv) kvs"
    using notin by (intro filter_cong) (auto simp: image_iff)
  have step: "fst (update_properties kvs (cache(k := v))) = map fst (filter (\<lambda>kv. cache (fst kv) \<noteq> snd kv) kvs)"
    using Cons.IH [OF dist, of "cache(k := v)"] same by metis
  show ?case
  proof (cases "cache k = v")
    case True
    then show ?thesis using Cons.IH [OF dist, of cache] kv by simp
  next
    case False
    then show ?thesis using step kv by (simp add: split_beta)
  qed
qed

lemma update_properties_snd:
  "distinct (map fst kvs) \<Longrightarrow>
   snd (update_properties kvs cache) k = (case map_of kvs k of None \<Rightarrow> cache k | Some v \<Rightarrow> v)"
proof (induction kvs arbitrary: cache)
  case Nil
  then show ?case by simp
next
  case (Cons kv kvs)
  obtain k' v' where kv: "kv = (k', v')" by (cases kv)
  from Cons.prems kv have notin: "k' \<notin> fst ` set kvs" and dist: "distinct (map fst kvs)"
    by auto
  from notin have none: "map_of kvs k' = None"
    by (simp add: map_of_eq_None_iff)
  show ?case
  proof (cases "cache k' = v'")
    case True
    then show ?thesis using Cons.IH [OF dist, of cache] kv none by (cases "k = k'") auto
  next
    case False
    then have upd: "snd (update_properties (kv # kvs) cache) k = snd (update_properties kvs (cache(k' := v'))) k"
      using kv by (simp add: split_beta)
    have ih: "snd (update_properties kvs (cache(k' := v'))) k =
        (case map_of kvs k of None \<Rightarrow> (cache(k' := v')) k | Some v \<Rightarrow> v)"
      by (rule Cons.IH [OF dist])
    show ?thesis unfolding upd ih using kv none by (cases "k = k'") (auto split: option.splits)
  qed
qed

lemma update_properties_set:
  assumes "distinct (map fst m)"
  shows "set (fst (update_properties m c)) = {k. \<exists>v. (k, v) \<in> set m \<and> c k \<noteq> v}"
  unfolding update_properties_fst [OF assms] by force

lemma update_properties_entry:
  assumes "distinct (map fst m)" and "(k, v) \<in> set m"
  shows "snd (update_properties m c) k = v"
  using assms by (simp add: update_properties_snd)

lemma update_properties_written:
  assumes "distinct (map fst m)"
  shows "(snd (update_properties m c) k \<noteq> c k) = (k \<in> set (fst (update_properties m c)))"
proof (cases "map_of m k")
  case None
  then have "k \<notin> fst ` set m" by (simp add: map_of_eq_None_iff)
  then have "k \<notin> set (fst (update_properties m c))"
    unfolding update_properties_set [OF assms] by force
  then show ?thesis using None by (simp add: update_properties_snd [OF assms])
next
  case (Some v)
  then have mem: "(k, v) \<in> set m" by (rule map_of_SomeD)
  have uniq: "v' = v" if "(k, v') \<in> set m" for v'
    using that Some assms by simp
  have "(k \<in> set (fst (update_properties m c))) = (c k \<noteq> v)"
    unfolding update_properties_set [OF assms] using mem uniq by blast
  then show ?thesis using Some by (auto simp: update_properties_snd [OF assms])
qed

lemma update_properties_again:
  assumes "distinct (map fst m)"
  shows "update_properties m (snd (update_properties m c)) = ([], snd (update_properties m c))"
proof -
  have none: "fst (update_properties m (snd (update_properties m c))) = []"
    unfolding update_properties_fst [OF assms]
    using update_properties_entry [OF assms] by (auto simp: filter_empty_conv)
  have "snd (update_properties m (snd (update_properties m c))) k = snd (update_properties m c) k" for k
    using update_properties_written [OF assms, of "snd (update_properties m c)" k] none by simp
  then have "snd (update_properties m (snd (update_properties m c))) = snd (update_properties m c)"
    by (rule ext)
  with none show ?thesis by (simp add: prod_eq_iff)
qed

text \<open>
  Claim C1. Whatever calls came before (the mappings \<open>ms\<close>, from any cache \<open>c0\<close>), a call
  of \<^verbatim>\<open>update_properties\<close> with a mapping \<open>m\<close> (a dict: every key once) returns exactly the
  names whose new value differs from the cached one, each once; the entries of the cache
  that it changes are exactly the returned ones; afterwards the cache holds every value of
  \<open>m\<close>; and the same call again returns the empty list and leaves the cache as it is.
\<close>

theorem update_properties_changed_names:
  "distinct (map fst m) \<Longrightarrow>
   (let c = update_sequence ms c0; r = update_properties m c
    in set (fst r) = {k. \<exists>v. (k, v) \<in> set m \<and> c k \<noteq> v}
       \<and> distinct (fst r)
       \<and> (\<forall>k. (snd r k \<noteq> c k) = (k \<in> set (fst r)))
       \<and> (\<forall>k v. (k, v) \<in> set m \<longrightarrow> snd r k = v)
       \<and> update_properties m (snd r) = ([], snd r))"
  unfolding Let_def
  using update_properties_set [of m] update_properties_written [of m]
    update_properties_entry [of m] update_properties_again [of m]
  by (simp add: update_properties_fst distinct_map_filter)

text \<open>
  The dict of \<^verbatim>\<open>set_led\<close> (lines 216 to 222) on a cache whose blink rate is already
  \<^verbatim>\<open>OFF\<close>: the two colours are returned, and nothing the second time.
\<close>

theorem update_properties_changed_names_witness:
  "distinct (map fst (led_dict (255, 0, 0) (0, 0, 0) Off))
   \<and> (let c = update_sequence [[(''led_blink_rate'', Some (BlinkV Off))]] Button_defaults;
          r = update_properties (led_dict (255, 0, 0) (0, 0, 0) Off) c
      in set (fst r) = {k. \<exists>v. (k, v) \<in> set (led_dict (255, 0, 0) (0, 0, 0) Off) \<and> c k \<noteq> v}
         \<and> fst r = [''led_active_color'', ''led_inactive_color'']
         \<and> update_properties (led_dict (255, 0, 0) (0, 0, 0) Off) (snd r) = ([], snd r))"
proof -
  have d: "distinct (map fst (led_dict (255, 0, 0) (0, 0, 0) Off))"
    by (simp add: led_dict_def)
  have v: "fst (update_properties (led_dict (255, 0, 0) (0, 0, 0) Off)
             (update_sequence [[(''led_blink_rate'', Some (BlinkV Off))]] Button_defaults))
           = [''led_active_color'', ''led_inactive_color'']"
    by (simp add: led_dict_def Button_defaults_def)
  show ?thesis
    using d v update_properties_changed_names [OF d, of "[[(''led_blink_rate'', Some (BlinkV Off))]]" Button_defaults]
    by (simp add: Let_def)
qed

subsection \<open>The cache of a button\<close>

lemma update_button_single:
  "update_button [(n, v)] b =
     (if props b n \<noteq> v then ([n], b\<lparr>props := (props b)(n := v)\<rparr>) else ([], b))"
  by (simp add: update_button_def)

lemma update_button_vid [simp]: "vid (snd (update_button kvs b)) = vid b"
  by (simp add: update_button_def split_beta)

lemma update_button_client [simp]: "command_client (snd (update_button kvs b)) = command_client b"
  by (simp add: update_button_def split_beta)

lemma update_button_props: "props (snd (update_button kvs b)) = snd (update_properties kvs (props b))"
  by (simp add: update_button_def split_beta)

lemma update_button_fst: "fst (update_button kvs b) = fst (update_properties kvs (props b))"
  by (simp add: update_button_def split_beta)

lemma btn_map_press [simp]: "btn_map ''PRESS'' = Some Down"
  by (simp add: btn_map_def)

text \<open>
  Claim C3, as amended. A pushed \<^verbatim>\<open>S:BTN <id> PRESS\<close> sets the cached state to Down and
  writes nothing else; for a button whose cached state is not Down already it reports
  exactly the one name \<^verbatim>\<open>state\<close>; and a second PRESS right after it reports no name and
  leaves the button as it is.
\<close>

theorem press_status_reported_once:
  "(props b ''state'' \<noteq> Some (StateV Down) \<longrightarrow>
      fst (handle_category_status ''BTN'' (''PRESS'' # rest) b) = Inr [''state''])
   \<and> props (snd (handle_category_status ''BTN'' (''PRESS'' # rest) b))
        = (props b)(''state'' := Some (StateV Down))
   \<and> handle_category_status ''BTN'' (''PRESS'' # rest') (snd (handle_category_status ''BTN'' (''PRESS'' # rest) b))
        = (Inr [], snd (handle_category_status ''BTN'' (''PRESS'' # rest) b))"
  by (auto simp: handle_category_status_def update_button_single)

text \<open>A new button, whose state is Up, pressed twice.\<close>

theorem press_status_reported_once_witness:
  "props (new_button 447 True) ''state'' \<noteq> Some (StateV Down)
   \<and> fst (handle_category_status ''BTN'' [''PRESS''] (new_button 447 True)) = Inr [''state'']
   \<and> props (snd (handle_category_status ''BTN'' [''PRESS''] (new_button 447 True))) ''state'' = Some (StateV Down)
   \<and> fst (handle_category_status ''BTN'' [''PRESS''] (snd (handle_category_status ''BTN'' [''PRESS''] (new_button 447 True)))) = Inr []"
proof -
  have h: "props (new_button 447 True) ''state'' \<noteq> Some (StateV Down)"
    by (simp add: new_button_def Button_defaults_def)
  show ?thesis
    using h press_status_reported_once [of "new_button 447 True" "[]" "[]"]
    by simp
qed

lemma invoke_client:
  "command_client b \<Longrightarrow>
   invoke rem b m args w =
     (invoke_reply rem (sent w @ [Invoke (vid b) m args]), w\<lparr>sent := sent w @ [Invoke (vid b) m args]\<rparr>)"
  by (simp add: invoke_def Let_def)

lemma invoke_no_client: "\<not> command_client b \<Longrightarrow> invoke rem b m args w = (Inl ValueError, w)"
  by (simp add: invoke_def)

lemma update_properties_known:
  "\<forall>kv \<in> set kvs. snd kv \<noteq> None \<Longrightarrow> c n \<noteq> None \<Longrightarrow> snd (update_properties kvs c) n \<noteq> None"
proof (induction kvs arbitrary: c)
  case Nil
  then show ?case by simp
next
  case (Cons kv kvs)
  obtain k v where kv: "kv = (k, v)" by (cases kv)
  from Cons.prems kv have v: "v \<noteq> None" and rest: "\<forall>kv \<in> set kvs. snd kv \<noteq> None" by auto
  have upd: "(c(k := v)) n \<noteq> None" using v Cons.prems(2) by simp
  show ?case
  proof (cases "c k = v")
    case True
    then show ?thesis using kv Cons.IH [of c, OF rest Cons.prems(2)] by simp
  next
    case False
    then have eq: "snd (update_properties (kv # kvs) c) n = snd (update_properties kvs (c(k := v))) n"
      using kv by (simp add: split_beta)
    show ?thesis unfolding eq by (rule Cons.IH [of "c(k := v)", OF rest upd])
  qed
qed

lemma update_properties_other:
  "n \<notin> fst ` set kvs \<Longrightarrow> snd (update_properties kvs c) n = c n"
proof (induction kvs arbitrary: c)
  case Nil
  then show ?case by simp
next
  case (Cons kv kvs)
  obtain k v where kv: "kv = (k, v)" by (cases kv)
  from Cons.prems kv have ne: "n \<noteq> k" and rest: "n \<notin> fst ` set kvs" by auto
  show ?case
  proof (cases "c k = v")
    case True
    then show ?thesis using kv Cons.IH [OF rest, of c] by simp
  next
    case False
    then have "snd (update_properties (kv # kvs) c) n = snd (update_properties kvs (c(k := v))) n"
      using kv by (simp add: split_beta)
    also have "\<dots> = (c(k := v)) n" by (rule Cons.IH [OF rest])
    also have "\<dots> = c n" using ne by simp
    finally show ?thesis .
  qed
qed

lemma update_button_known:
  "\<forall>kv \<in> set kvs. snd kv \<noteq> None \<Longrightarrow> props b n \<noteq> None \<Longrightarrow> props (snd (update_button kvs b)) n \<noteq> None"
  by (simp add: update_button_props update_properties_known)

lemma update_button_other:
  "n \<notin> fst ` set kvs \<Longrightarrow> props (snd (update_button kvs b)) n = props b n"
  by (simp add: update_button_props update_properties_other)

lemma led_dict_known: "\<forall>kv \<in> set (led_dict active inactive rate). snd kv \<noteq> None"
  by (simp add: led_dict_def split_beta)

lemma led_tokens_dict_known:
  "led_tokens_dict r1 g1 b1 r2 g2 b2 s = Inr d \<Longrightarrow> \<forall>kv \<in> set d. snd kv \<noteq> None"
  by (auto simp: led_tokens_dict_def led_dict_def split: sum.splits)

lemma getled_dict_known:
  "getled_dict response = Inr d \<Longrightarrow> \<forall>kv \<in> set d. snd kv \<noteq> None"
  unfolding getled_dict_def
  by (auto split: if_splits list.splits dest: led_tokens_dict_known)

subsection \<open>What an operation can do to the button\<close>

lemma get_state_button [simp]: "fst (snd (get_state rem hw b w)) = b"
  by (auto simp: get_state_def split: prod.splits sum.splits)

lemma set_state_button [simp]: "fst (snd (set_state rem s sw b w)) = b"
  by (auto simp: set_state_def split: prod.splits sum.splits)

lemma press_button [simp]: "fst (snd (press rem b w)) = b"
  by (simp add: press_def)

lemma release_button [simp]: "fst (snd (release rem b w)) = b"
  by (simp add: release_def)

lemma press_and_release_button [simp]: "fst (snd (press_and_release rem b w)) = b"
proof -
  obtain r b' w' where p: "press rem b w = (r, b', w')" by (cases "press rem b w")
  then have "b' = b" using press_button [of rem b w] by simp
  then show ?thesis using p release_button [of rem b w']
    by (cases r) (simp_all add: press_and_release_def)
qed

lemma set_led_button:
  "fst (snd (set_led rem active inactive rate b w)) = b
   \<or> fst (snd (set_led rem active inactive rate b w)) = snd (update_button (led_dict active inactive rate) b)"
  by (auto simp: set_led_def split: prod.splits sum.splits)

lemma Interface_fetch_state_button:
  "fst (snd (Interface_fetch_state rem b w)) = b
   \<or> (\<exists>s. fst (snd (Interface_fetch_state rem b w)) = snd (update_button [(''state'', Some (StateV s))] b))"
proof -
  obtain r b' w' where g: "get_state rem False b w = (r, b', w')"
    by (cases "get_state rem False b w")
  then have "b' = b" using get_state_button [of rem False b w] by simp
  then show ?thesis using g
    by (cases r) (auto simp: Interface_fetch_state_def split_beta)
qed

lemma fetch_state_button:
  "fst (snd (fetch_state rem b w)) = fst (snd (Interface_fetch_state rem b w))
   \<or> (\<exists>d. (\<forall>kv \<in> set d. snd kv \<noteq> None)
          \<and> fst (snd (fetch_state rem b w)) = snd (update_button d (fst (snd (Interface_fetch_state rem b w)))))"
proof -
  obtain r b1 w1 where base: "Interface_fetch_state rem b w = (r, b1, w1)"
    by (cases "Interface_fetch_state rem b w")
  obtain o2 w2 where raw: "raw_request rem (''GETLED '' @ str_int (vid b1)) w1 = (o2, w2)"
    by (cases "raw_request rem (''GETLED '' @ str_int (vid b1)) w1")
  show ?thesis
  proof (cases "case o2 of Inl e \<Rightarrow> Inl e | Inr response \<Rightarrow> getled_dict response")
    case (Inl e)
    then show ?thesis using base raw
      by (auto simp: fetch_state_def split: sum.splits)
  next
    case (Inr d)
    then have known: "\<forall>kv \<in> set d. snd kv \<noteq> None"
      by (auto split: sum.splits dest: getled_dict_known)
    show ?thesis
    proof (cases r)
      case (Inl e)
      then show ?thesis using base by (simp add: fetch_state_def)
    next
      case r: (Inr changed)
      show ?thesis
      proof (cases "command_client b1")
        case True
        then have "fst (snd (fetch_state rem b w)) = snd (update_button d b1)"
          using base raw Inr r by (simp add: fetch_state_def split_beta)
        then show ?thesis using known base by auto
      next
        case False
        then show ?thesis using base r by (simp add: fetch_state_def)
      qed
    qed
  qed
qed

lemma handle_category_status_led:
  "snd (handle_category_status ''LED'' args b) = b
   \<or> (\<exists>r1 g1 b1 r2 g2 b2 s d. led_tokens_dict r1 g1 b1 r2 g2 b2 s = Inr d
          \<and> snd (handle_category_status ''LED'' args b) = snd (update_button d b))"
  by (auto simp: handle_category_status_def split_beta split: list.splits sum.splits) blast+

lemma handle_category_status_button:
  "snd (handle_category_status category args b) = b
   \<or> (category = ''BTN'' \<and> (\<exists>s. snd (handle_category_status category args b) = snd (update_button [(''state'', Some (StateV s))] b)))
   \<or> (category = ''LED'' \<and> (\<exists>d. (\<forall>kv \<in> set d. snd kv \<noteq> None)
          \<and> snd (handle_category_status category args b) = snd (update_button d b)))"
proof (cases "category = ''BTN''")
  case True
  then show ?thesis
    by (auto simp: handle_category_status_def split_beta split: list.splits option.splits)
next
  case nb: False
  show ?thesis
  proof (cases "category = ''LED''")
    case False
    then show ?thesis using nb by (simp add: handle_category_status_def)
  next
    case True
    from handle_category_status_led [of args b] show ?thesis
    proof
      assume "snd (handle_category_status ''LED'' args b) = b"
      then show ?thesis using True by simp
    next
      assume "\<exists>r1 g1 b1 r2 g2 b2 s d. led_tokens_dict r1 g1 b1 r2 g2 b2 s = Inr d
          \<and> snd (handle_category_status ''LED'' args b) = snd (update_button d b)"
      then obtain r1 g1 b1 r2 g2 b2 s d where d: "led_tokens_dict r1 g1 b1 r2 g2 b2 s = Inr d"
        and eq: "snd (handle_category_status ''LED'' args b) = snd (update_button d b)"
        by blast
      from led_tokens_dict_known [OF d] eq True show ?thesis by blast
    qed
  qed
qed

lemma perform_keeps:
  assumes known: "props b n \<noteq> None"
  shows "props (fst (perform rem op (b, w))) n \<noteq> None"
proof (cases op)
  case (SetLed active inactive rate)
  then show ?thesis
    using known set_led_button [of rem active inactive rate b w]
      update_button_known [OF led_dict_known, of b n active inactive rate]
    by auto
next
  case ClearLed
  then show ?thesis
    using known set_led_button [of rem "(0, 0, 0)" "(0, 0, 0)" Off b w]
      update_button_known [OF led_dict_known, of b n "(0, 0, 0)" "(0, 0, 0)" Off]
    by (auto simp: clear_led_def)
next
  case FetchState
  have base: "props (fst (snd (Interface_fetch_state rem b w))) n \<noteq> None"
    using known Interface_fetch_state_button [of rem b w]
      update_button_known [of "[(''state'', Some (StateV s))]" b n for s]
    by auto
  show ?thesis
    using FetchState base fetch_state_button [of rem b w]
      update_button_known [of d "fst (snd (Interface_fetch_state rem b w))" n for d]
    by auto
next
  case (CategoryStatus category args)
  show ?thesis
    using CategoryStatus known handle_category_status_button [of category args b]
      update_button_known [of d b n for d]
    by auto
qed (use known in simp_all)

lemma perform_led:
  assumes quiet: "\<not> writes_led op" and other: "n \<noteq> ''state''"
  shows "props (fst (perform rem op (b, w))) n = props b n"
proof (cases op)
  case (CategoryStatus category args)
  then show ?thesis
    using quiet other handle_category_status_button [of category args b]
      update_button_other [of n "[(''state'', Some (StateV s))]" b for s]
    by auto
qed (use quiet in simp_all)

lemma run_Cons: "run rem (op # ops) s = run rem ops (perform rem op s)"
  by (simp add: run_def)

lemma run_keeps: "props (fst s) n \<noteq> None \<Longrightarrow> props (fst (run rem ops s)) n \<noteq> None"
proof (induction ops arbitrary: s)
  case Nil
  then show ?case by (simp add: run_def)
next
  case (Cons op ops)
  obtain b w where s: "s = (b, w)" by (cases s)
  have "props (fst (perform rem op s)) n \<noteq> None"
    using Cons.prems s perform_keeps [of b n rem op w] by simp
  then show ?case unfolding run_Cons by (rule Cons.IH)
qed

lemma run_led:
  "\<forall>op \<in> set ops. \<not> writes_led op \<Longrightarrow> n \<noteq> ''state'' \<Longrightarrow> props (fst (run rem ops s)) n = props (fst s) n"
proof (induction ops arbitrary: s)
  case Nil
  then show ?case by (simp add: run_def)
next
  case (Cons op ops)
  obtain b w where s: "s = (b, w)" by (cases s)
  have step: "props (fst (perform rem op s)) n = props (fst s) n"
    using Cons.prems s perform_led [of op n rem b w] by simp
  have "props (fst (run rem ops (perform rem op s))) n = props (fst (perform rem op s)) n"
    using Cons.prems by (intro Cons.IH) simp_all
  then show ?case unfolding run_Cons using step by simp
qed

text \<open>
  Claim C5, as amended. A new button holds \<^verbatim>\<open>state = Up\<close>, not Unknown, and its three LED
  properties are Unknown; an LED property keeps its value, Unknown included, through
  every sequence of operations that neither fetches, nor pushes, nor sets the LED; and
  through every sequence of operations a property that holds a value never goes back to
  Unknown.
\<close>

theorem button_properties_stay_known:
  "props (new_button i client) ''state'' = Some (StateV Up)
   \<and> (\<forall>n \<in> set led_names. props (new_button i client) n = None)
   \<and> ((\<forall>op \<in> set ops. \<not> writes_led op) \<longrightarrow>
        (\<forall>n \<in> set led_names. props (fst (run rem ops (b, w))) n = props b n))
   \<and> (props b n \<noteq> None \<longrightarrow> props (fst (run rem ops (b, w))) n \<noteq> None)"
proof -
  have init: "props (new_button i client) ''state'' = Some (StateV Up)
      \<and> (\<forall>n \<in> set led_names. props (new_button i client) n = None)"
    by (simp add: new_button_def Button_defaults_def led_names_def)
  have led: "props (fst (run rem ops (b, w))) m = props b m"
    if "\<forall>op \<in> set ops. \<not> writes_led op" and "m \<in> set led_names" for m
  proof -
    from that(2) have "m \<noteq> ''state''" by (auto simp: led_names_def)
    from run_led [OF that(1) this, of rem "(b, w)"] show ?thesis by simp
  qed
  have known: "props b n \<noteq> None \<longrightarrow> props (fst (run rem ops (b, w))) n \<noteq> None"
    using run_keeps [of "(b, w)" n rem ops] by simp
  from init led known show ?thesis by blast
qed

text \<open>A press pushed to a new button, then \<^verbatim>\<open>get_state\<close>: no LED write, the state stays known.\<close>

theorem button_properties_stay_known_witness:
  "list_all (\<lambda>op. \<not> writes_led op) [CategoryStatus ''BTN'' [''PRESS''], GetState False]
   \<and> props (new_button 447 True) ''state'' \<noteq> None
   \<and> props (fst (run remote_up [CategoryStatus ''BTN'' [''PRESS''], GetState False] (new_button 447 True, world0))) ''state'' \<noteq> None
   \<and> props (fst (run remote_up [CategoryStatus ''BTN'' [''PRESS''], GetState False] (new_button 447 True, world0))) ''led_blink_rate'' = None"
proof -
  have h1: "\<forall>op \<in> set [CategoryStatus ''BTN'' [''PRESS''], GetState False]. \<not> writes_led op"
    by simp
  have h2: "props (new_button 447 True) ''state'' \<noteq> None"
    by (simp add: new_button_def Button_defaults_def)
  have h3: "''led_blink_rate'' \<in> set led_names"
    by (simp add: led_names_def)
  have h4: "props (new_button 447 True) ''led_blink_rate'' = None"
    by (simp add: new_button_def Button_defaults_def)
  show ?thesis
    using h1 h2 h3 h4
      button_properties_stay_known [of 447 True "[CategoryStatus ''BTN'' [''PRESS''], GetState False]"
        remote_up "new_button 447 True" world0 "''state''"]
    by simp
qed

text \<open>
  Against claim C5 as stated: the state of a button that was never fetched nor pushed is
  Up, not Unknown.
\<close>

theorem button_state_starts_up_counterexample:
  "props (new_button 447 True) ''state'' = Some (StateV Up)
   \<and> props (new_button 447 True) ''state'' \<noteq> None"
  by (simp add: new_button_def Button_defaults_def)

subsection \<open>\<^verbatim>\<open>fetch_state\<close> step by step\<close>

lemma get_state_client:
  assumes "command_client b"
  shows "get_state rem False b w =
    (state_outcome rem b w, b, w\<lparr>sent := sent w @ [Invoke (vid b) ''Button.GetState'' []]\<rparr>)"
  using assms
  by (simp add: get_state_def invoke_client state_outcome_def split: sum.splits)

lemma Interface_fetch_state_client:
  assumes "command_client b"
  shows "Interface_fetch_state rem b w =
    (case state_outcome rem b w of
       Inl e \<Rightarrow>
         (if e = CommandError \<or> e = ConversionError
          then (Inr [], b, w\<lparr>sent := sent w @ [Invoke (vid b) ''Button.GetState'' []],
                              warnings := warnings w @ [(vid b, e)]\<rparr>)
          else (Inl e, b, w\<lparr>sent := sent w @ [Invoke (vid b) ''Button.GetState'' []]\<rparr>))
     | Inr s \<Rightarrow>
         (Inr (fst (update_button [(''state'', Some (StateV s))] b)),
          snd (update_button [(''state'', Some (StateV s))] b),
          w\<lparr>sent := sent w @ [Invoke (vid b) ''Button.GetState'' []]\<rparr>))"
  unfolding Interface_fetch_state_def get_state_client [OF assms]
  by (simp add: split_beta split: sum.splits)

lemma fetch_state_after_base:
  assumes client: "command_client b"
    and base: "Interface_fetch_state rem b w = (Inr changed, b1, w1)"
  shows "vid b1 = vid b \<and> command_client b1
     \<and> sent w1 = sent w @ [Invoke (vid b) ''Button.GetState'' []]
     \<and> fetch_state rem b w =
        (case led_outcome rem b w of
           Inr d \<Rightarrow> (Inr (changed @ fst (update_button d b1)), snd (update_button d b1),
                      w1\<lparr>sent := sent w1 @ [Raw (''GETLED '' @ str_int (vid b))]\<rparr>)
         | Inl e \<Rightarrow>
             (if e = CommandError \<or> e = ConversionError \<or> e = ValueError
              then (Inr changed, b1, w1\<lparr>sent := sent w1 @ [Raw (''GETLED '' @ str_int (vid b))],
                                         warnings := warnings w1 @ [(vid b, e)]\<rparr>)
              else (Inl e, b1, w1\<lparr>sent := sent w1 @ [Raw (''GETLED '' @ str_int (vid b))]\<rparr>)))"
proof -
  from base have facts: "vid b1 = vid b" "command_client b1"
      "sent w1 = sent w @ [Invoke (vid b) ''Button.GetState'' []]"
    unfolding Interface_fetch_state_client [OF client]
    using client by (auto split: sum.splits if_splits)
  have led: "(case raw_reply rem (sent w1 @ [Raw (''GETLED '' @ str_int (vid b))]) of
               Inl e \<Rightarrow> Inl e | Inr response \<Rightarrow> getled_dict response) = led_outcome rem b w"
    using facts(3) by (simp add: led_outcome_def)
  have "fetch_state rem b w =
        (case led_outcome rem b w of
           Inr d \<Rightarrow> (Inr (changed @ fst (update_button d b1)), snd (update_button d b1),
                      w1\<lparr>sent := sent w1 @ [Raw (''GETLED '' @ str_int (vid b))]\<rparr>)
         | Inl e \<Rightarrow>
             (if e = CommandError \<or> e = ConversionError \<or> e = ValueError
              then (Inr changed, b1, w1\<lparr>sent := sent w1 @ [Raw (''GETLED '' @ str_int (vid b))],
                                         warnings := warnings w1 @ [(vid b, e)]\<rparr>)
              else (Inl e, b1, w1\<lparr>sent := sent w1 @ [Raw (''GETLED '' @ str_int (vid b))]\<rparr>)))"
    unfolding led [symmetric]
    using base facts
    by (simp add: fetch_state_def raw_request_def Let_def split_beta split: sum.splits)
  with facts show ?thesis by simp
qed

lemma str_int_447: "str_int 447 = ''447''"
  by (simp add: str_int_def str_nat.simps digit_char_def)

lemma tokenize_getled_line:
  "tokenize ''R:GETLED 447 1 255 0 0 0 0 0 OFF'' =
     [''R:GETLED'', ''447'', ''1'', ''255'', ''0'', ''0'', ''0'', ''0'', ''0'', ''OFF'']"
  by (simp add: tokenize_def is_space_def)

lemma py_int_255: "py_int ''255'' = Inr 255"
  by (simp add: py_int_def strip_def to_ascii_space_def py_isspace_def digit_val_def)

lemma py_int_0: "py_int ''0'' = Inr 0"
  by (simp add: py_int_def strip_def to_ascii_space_def py_isspace_def digit_val_def)

lemma getled_dict_example:
  assumes "response \<noteq> []" and "last response = ''R:GETLED 447 1 255 0 0 0 0 0 OFF''"
  shows "getled_dict response = Inr (led_dict (255, 0, 0) (0, 0, 0) Off)"
  using assms
  by (simp add: getled_dict_def tokenize_getled_line led_tokens_dict_def py_int_255 py_int_0
      BlinkRate_of_def)

lemma update_button_led_fresh:
  assumes "\<forall>n \<in> set led_names. props b1 n = None"
  shows "fst (update_button (led_dict active inactive rate) b1) = led_names"
    and "props (snd (update_button (led_dict active inactive rate) b1)) =
           (props b1)(''led_active_color'' := Some (ColorV (fst active) (fst (snd active)) (snd (snd active))),
                      ''led_inactive_color'' := Some (ColorV (fst inactive) (fst (snd inactive)) (snd (snd inactive))),
                      ''led_blink_rate'' := Some (BlinkV rate))"
  using assms
  by (simp_all add: update_button_def led_dict_def led_names_def split_beta)

text \<open>
  Claim C2, as amended. For button 447 with its cache in the initial state and a command
  client, a fetch that gets past the state getter (its reply decodes, or fails with
  \<^verbatim>\<open>CommandError\<close> or \<^verbatim>\<open>ConversionError\<close>) and whose GETLED response ends with the line
  \<^verbatim>\<open>R:GETLED 447 1 255 0 0 0 0 0 OFF\<close> sets the three LED properties to (255,0,0), (0,0,0)
  and OFF, and returns exactly these three names, after the name \<^verbatim>\<open>state\<close> when the
  controller reports the button Down.
\<close>

theorem fetch_state_example_447:
  assumes id: "vid b = 447" and fresh: "props b = Button_defaults" and client: "command_client b"
    and reaches: "\<forall>e. state_outcome rem b w = Inl e \<longrightarrow> e = CommandError \<or> e = ConversionError"
    and reply: "raw_reply rem (sent w @ [Invoke 447 ''Button.GetState'' [], Raw ''GETLED 447'']) = Inr response"
    and line: "response \<noteq> []" "last response = ''R:GETLED 447 1 255 0 0 0 0 0 OFF''"
  shows "fst (fetch_state rem b w) =
           Inr ((if state_outcome rem b w = Inr Down then [''state''] else [])
                @ [''led_active_color'', ''led_inactive_color'', ''led_blink_rate''])
     \<and> props (fst (snd (fetch_state rem b w))) ''led_active_color'' = Some (ColorV 255 0 0)
     \<and> props (fst (snd (fetch_state rem b w))) ''led_inactive_color'' = Some (ColorV 0 0 0)
     \<and> props (fst (snd (fetch_state rem b w))) ''led_blink_rate'' = Some (BlinkV Off)"
proof -
  have led: "led_outcome rem b w = Inr (led_dict (255, 0, 0) (0, 0, 0) Off)"
    using reply getled_dict_example [OF line] by (simp add: led_outcome_def id str_int_447)
  obtain r b1 w1 where base: "Interface_fetch_state rem b w = (r, b1, w1)"
    by (cases "Interface_fetch_state rem b w")
  have r: "r = Inr (if state_outcome rem b w = Inr Down then [''state''] else [])"
    and b1: "\<forall>n \<in> set led_names. props b1 n = None"
  proof -
    show "r = Inr (if state_outcome rem b w = Inr Down then [''state''] else [])"
    proof (cases "state_outcome rem b w")
      case (Inl e)
      then show ?thesis using base reaches
        by (auto simp: Interface_fetch_state_client [OF client])
    next
      case (Inr s)
      then show ?thesis using base fresh
        by (cases s) (auto simp: Interface_fetch_state_client [OF client] update_button_single Button_defaults_def)
    qed
    show "\<forall>n \<in> set led_names. props b1 n = None"
    proof (cases "state_outcome rem b w")
      case (Inl e)
      then show ?thesis using base reaches fresh
        by (auto simp: Interface_fetch_state_client [OF client] Button_defaults_def led_names_def)
    next
      case (Inr s)
      then show ?thesis using base fresh
        by (cases s) (auto simp: Interface_fetch_state_client [OF client] update_button_single Button_defaults_def led_names_def)
    qed
  qed
  from r obtain changed where changed: "r = Inr changed"
    "changed = (if state_outcome rem b w = Inr Down then [''state''] else [])" by blast
  from fetch_state_after_base [OF client base [unfolded changed(1)]]
  have "fetch_state rem b w =
      (Inr (changed @ fst (update_button (led_dict (255, 0, 0) (0, 0, 0) Off) b1)),
       snd (update_button (led_dict (255, 0, 0) (0, 0, 0) Off) b1),
       w1\<lparr>sent := sent w1 @ [Raw (''GETLED '' @ str_int (vid b))]\<rparr>)"
    by (simp add: led)
  then show ?thesis
    using update_button_led_fresh [OF b1, of "(255, 0, 0)" "(0, 0, 0)" Off] changed(2)
    by (simp add: led_names_def)
qed

text \<open>The controller reports the button Up: exactly the three LED names.\<close>

theorem fetch_state_example_447_witness:
  "vid (new_button 447 True) = 447
   \<and> props (new_button 447 True) = Button_defaults
   \<and> command_client (new_button 447 True)
   \<and> state_outcome remote_up (new_button 447 True) world0 = Inr Up
   \<and> raw_reply remote_up (sent world0 @ [Invoke 447 ''Button.GetState'' [], Raw ''GETLED 447''])
        = Inr [''R:GETLED 447 1 255 0 0 0 0 0 OFF'']
   \<and> fst (fetch_state remote_up (new_button 447 True) world0)
        = Inr [''led_active_color'', ''led_inactive_color'', ''led_blink_rate'']
   \<and> props (fst (snd (fetch_state remote_up (new_button 447 True) world0))) ''led_active_color'' = Some (ColorV 255 0 0)
   \<and> props (fst (snd (fetch_state remote_up (new_button 447 True) world0))) ''led_inactive_color'' = Some (ColorV 0 0 0)
   \<and> props (fst (snd (fetch_state remote_up (new_button 447 True) world0))) ''led_blink_rate'' = Some (BlinkV Off)"
proof -
  have h1: "vid (new_button 447 True) = 447" by (simp add: new_button_def)
  have h2: "props (new_button 447 True) = Button_defaults" by (simp add: new_button_def)
  have h3: "command_client (new_button 447 True)" by (simp add: new_button_def)
  have h4: "state_outcome remote_up (new_button 447 True) world0 = Inr Up"
    by (simp add: state_outcome_def remote_up_def State_of_def)
  then have h5: "\<forall>e. state_outcome remote_up (new_button 447 True) world0 = Inl e
      \<longrightarrow> e = CommandError \<or> e = ConversionError" by simp
  have h6: "raw_reply remote_up (sent world0 @ [Invoke 447 ''Button.GetState'' [], Raw ''GETLED 447''])
        = Inr [''R:GETLED 447 1 255 0 0 0 0 0 OFF'']"
    by (simp add: remote_up_def getled_line_def)
  have h7: "[''R:GETLED 447 1 255 0 0 0 0 0 OFF''] \<noteq> []" by simp
  have h8: "last [''R:GETLED 447 1 255 0 0 0 0 0 OFF''] = ''R:GETLED 447 1 255 0 0 0 0 0 OFF''" by simp
  show ?thesis
    using h1 h2 h3 h4 h6 fetch_state_example_447 [OF h1 h2 h3 h5 h6 h7 h8]
    by simp
qed

lemma fetch_state_remote_down:
  "fetch_state remote_down (new_button 447 True) world0 =
     (Inr [''state'', ''led_active_color'', ''led_inactive_color'', ''led_blink_rate''],
      (new_button 447 True)
        \<lparr>props := Button_defaults
           (''state'' := Some (StateV Down),
            ''led_active_color'' := Some (ColorV 255 0 0),
            ''led_inactive_color'' := Some (ColorV 0 0 0),
            ''led_blink_rate'' := Some (BlinkV Off))\<rparr>,
      \<lparr>sent = [Invoke 447 ''Button.GetState'' [], Raw ''GETLED 447''], warnings = []\<rparr>)"
proof -
  have client: "command_client (new_button 447 True)" by (simp add: new_button_def)
  have st: "state_outcome remote_down (new_button 447 True) world0 = Inr Down"
    by (simp add: state_outcome_def remote_down_def State_of_def)
  have led: "led_outcome remote_down (new_button 447 True) world0 = Inr (led_dict (255, 0, 0) (0, 0, 0) Off)"
    using getled_dict_example [of "[''R:GETLED 447 1 255 0 0 0 0 0 OFF'']"]
    by (simp add: led_outcome_def remote_down_def getled_line_def)
  have base: "Interface_fetch_state remote_down (new_button 447 True) world0 =
      (Inr [''state''], (new_button 447 True)\<lparr>props := Button_defaults(''state'' := Some (StateV Down))\<rparr>,
       world0\<lparr>sent := [Invoke 447 ''Button.GetState'' []]\<rparr>)"
    unfolding Interface_fetch_state_client [OF client] st
    by (simp add: update_button_single new_button_def Button_defaults_def world0_def)
  have "fetch_state remote_down (new_button 447 True) world0 =
      (Inr ([''state''] @ fst (update_button (led_dict (255, 0, 0) (0, 0, 0) Off)
              ((new_button 447 True)\<lparr>props := Button_defaults(''state'' := Some (StateV Down))\<rparr>))),
       snd (update_button (led_dict (255, 0, 0) (0, 0, 0) Off)
              ((new_button 447 True)\<lparr>props := Button_defaults(''state'' := Some (StateV Down))\<rparr>)),
       world0\<lparr>sent := [Invoke 447 ''Button.GetState'' [], Raw ''GETLED 447'']\<rparr>)"
    using fetch_state_after_base [OF client base, unfolded led]
    by (simp add: str_int_447 new_button_def world0_def)
  then show ?thesis
    by (simp add: update_button_def led_dict_def Button_defaults_def new_button_def world0_def)
qed

text \<open>
  Against claim C2 as stated: the same button, the same GETLED line, and a controller that
  reports the button Down. The first fetch returns four names.
\<close>

theorem fetch_state_first_fetch_counterexample:
  "vid (new_button 447 True) = 447
   \<and> props (new_button 447 True) = Button_defaults
   \<and> raw_reply remote_down (sent world0 @ [Invoke 447 ''Button.GetState'' [], Raw ''GETLED 447''])
        = Inr [''R:GETLED 447 1 255 0 0 0 0 0 OFF'']
   \<and> sent (snd (snd (fetch_state remote_down (new_button 447 True) world0)))
        = [Invoke 447 ''Button.GetState'' [], Raw ''GETLED 447'']
   \<and> fst (fetch_state remote_down (new_button 447 True) world0)
        = Inr [''state'', ''led_active_color'', ''led_inactive_color'', ''led_blink_rate'']
   \<and> fst (fetch_state remote_down (new_button 447 True) world0)
        \<noteq> Inr [''led_active_color'', ''led_inactive_color'', ''led_blink_rate'']"
  unfolding fetch_state_remote_down
  by (simp add: new_button_def remote_down_def getled_line_def world0_def)

text \<open>
  Against claim C3 as stated: a button whose cache already holds Down, here after a fetch
  from a controller that reports it Down. The first pushed PRESS reports no name.
\<close>

theorem press_when_down_counterexample:
  "props (fst (snd (fetch_state remote_down (new_button 447 True) world0))) ''state'' = Some (StateV Down)
   \<and> fst (handle_category_status ''BTN'' [''PRESS'']
            (fst (snd (fetch_state remote_down (new_button 447 True) world0)))) = Inr []
   \<and> fst (handle_category_status ''BTN'' [''PRESS'']
            (fst (snd (fetch_state remote_down (new_button 447 True) world0)))) \<noteq> Inr [''state'']"
  unfolding fetch_state_remote_down
  by (simp add: handle_category_status_def update_button_single)

text \<open>
  Claim C9. For a button with a command client: unless the state getter fails with an
  exception that the inherited fetch lets through, \<^verbatim>\<open>fetch_state\<close> sends the request of the
  cached-property getter and then GETLED; when the LED fetch fails with \<^verbatim>\<open>CommandError\<close> or
  \<^verbatim>\<open>ConversionError\<close> (or \<^verbatim>\<open>ValueError\<close>), the failure is logged and \<^verbatim>\<open>fetch_state\<close> returns
  what the getters changed, with the button as they left it; when the state getter fails
  with \<^verbatim>\<open>CommandError\<close> or \<^verbatim>\<open>ConversionError\<close>, the failure is logged, the state stays as it
  was, and the LED is still fetched and its changes returned.
\<close>

theorem fetch_state_survives_failures:
  assumes client: "command_client b"
  shows "((\<forall>e. state_outcome rem b w = Inl e \<longrightarrow> e = CommandError \<or> e = ConversionError) \<longrightarrow>
            sent (snd (snd (fetch_state rem b w)))
              = sent w @ [Invoke (vid b) ''Button.GetState'' [], Raw (''GETLED '' @ str_int (vid b))])
     \<and> (\<forall>e changed b1 w1.
           Interface_fetch_state rem b w = (Inr changed, b1, w1)
           \<and> led_outcome rem b w = Inl e \<and> (e = CommandError \<or> e = ConversionError \<or> e = ValueError) \<longrightarrow>
           fetch_state rem b w =
             (Inr changed, b1,
              w1\<lparr>sent := sent w1 @ [Raw (''GETLED '' @ str_int (vid b))],
                 warnings := warnings w1 @ [(vid b, e)]\<rparr>))
     \<and> (\<forall>e. state_outcome rem b w = Inl e \<and> (e = CommandError \<or> e = ConversionError) \<longrightarrow>
           (\<exists>w1. Interface_fetch_state rem b w = (Inr [], b, w1)
                 \<and> warnings w1 = warnings w @ [(vid b, e)])
           \<and> (\<forall>d. led_outcome rem b w = Inr d \<longrightarrow>
                 fst (fetch_state rem b w) = Inr (fst (update_button d b))
                 \<and> fst (snd (fetch_state rem b w)) = snd (update_button d b)))"
proof (intro conjI allI impI)
  assume ok: "\<forall>e. state_outcome rem b w = Inl e \<longrightarrow> e = CommandError \<or> e = ConversionError"
  obtain r b1 w1 where base: "Interface_fetch_state rem b w = (r, b1, w1)"
    by (cases "Interface_fetch_state rem b w")
  from base ok obtain changed where r: "r = Inr changed"
    unfolding Interface_fetch_state_client [OF client]
    by (auto split: sum.splits if_splits)
  from fetch_state_after_base [OF client base [unfolded r]]
  show "sent (snd (snd (fetch_state rem b w)))
      = sent w @ [Invoke (vid b) ''Button.GetState'' [], Raw (''GETLED '' @ str_int (vid b))]"
    by (auto split: sum.splits)
next
  fix e changed b1 w1
  assume a: "Interface_fetch_state rem b w = (Inr changed, b1, w1)
     \<and> led_outcome rem b w = Inl e \<and> (e = CommandError \<or> e = ConversionError \<or> e = ValueError)"
  then have base: "Interface_fetch_state rem b w = (Inr changed, b1, w1)" by simp
  from fetch_state_after_base [OF client base] a
  show "fetch_state rem b w =
      (Inr changed, b1,
       w1\<lparr>sent := sent w1 @ [Raw (''GETLED '' @ str_int (vid b))],
          warnings := warnings w1 @ [(vid b, e)]\<rparr>)"
    by auto
next
  fix e
  assume a: "state_outcome rem b w = Inl e \<and> (e = CommandError \<or> e = ConversionError)"
  then show "\<exists>w1. Interface_fetch_state rem b w = (Inr [], b, w1)
      \<and> warnings w1 = warnings w @ [(vid b, e)]"
    by (auto simp: Interface_fetch_state_client [OF client])
next
  fix e d
  assume a: "state_outcome rem b w = Inl e \<and> (e = CommandError \<or> e = ConversionError)"
    and d: "led_outcome rem b w = Inr d"
  from a obtain w1 where base: "Interface_fetch_state rem b w = (Inr [], b, w1)"
    by (auto simp: Interface_fetch_state_client [OF client])
  from fetch_state_after_base [OF client base] d
  show "fst (fetch_state rem b w) = Inr (fst (update_button d b))"
    by simp
next
  fix e d
  assume a: "state_outcome rem b w = Inl e \<and> (e = CommandError \<or> e = ConversionError)"
    and d: "led_outcome rem b w = Inr d"
  from a obtain w1 where base: "Interface_fetch_state rem b w = (Inr [], b, w1)"
    by (auto simp: Interface_fetch_state_client [OF client])
  from fetch_state_after_base [OF client base] d
  show "fst (snd (fetch_state rem b w)) = snd (update_button d b)"
    by simp
qed

text \<open>
  A controller whose GETLED fails, and one whose state reply cannot be decoded: each time
  the other property is fetched and reported.
\<close>

theorem fetch_state_survives_failures_witness:
  "command_client (new_button 447 True)
   \<and> state_outcome remote_led_error (new_button 447 True) world0 = Inr Down
   \<and> led_outcome remote_led_error (new_button 447 True) world0 = Inl CommandError
   \<and> fetch_state remote_led_error (new_button 447 True) world0
        = (Inr [''state''],
           (new_button 447 True)\<lparr>props := Button_defaults(''state'' := Some (StateV Down))\<rparr>,
           \<lparr>sent = [Invoke 447 ''Button.GetState'' [], Raw ''GETLED 447''],
            warnings = [(447, CommandError)]\<rparr>)
   \<and> state_outcome remote_state_error (new_button 447 True) world0 = Inl ConversionError
   \<and> led_outcome remote_state_error (new_button 447 True) world0 = Inr (led_dict (255, 0, 0) (0, 0, 0) Off)
   \<and> fst (fetch_state remote_state_error (new_button 447 True) world0)
        = Inr [''led_active_color'', ''led_inactive_color'', ''led_blink_rate'']
   \<and> sent (snd (snd (fetch_state remote_state_error (new_button 447 True) world0)))
        = [Invoke 447 ''Button.GetState'' [], Raw ''GETLED 447'']"
proof -
  have client: "command_client (new_button 447 True)" by (simp add: new_button_def)
  have st1: "state_outcome remote_led_error (new_button 447 True) world0 = Inr Down"
    by (simp add: state_outcome_def remote_led_error_def State_of_def)
  have led1: "led_outcome remote_led_error (new_button 447 True) world0 = Inl CommandError"
    by (simp add: led_outcome_def remote_led_error_def)
  have base1: "Interface_fetch_state remote_led_error (new_button 447 True) world0 =
      (Inr [''state''], (new_button 447 True)\<lparr>props := Button_defaults(''state'' := Some (StateV Down))\<rparr>,
       world0\<lparr>sent := [Invoke 447 ''Button.GetState'' []]\<rparr>)"
    unfolding Interface_fetch_state_client [OF client] st1
    by (simp add: update_button_single new_button_def Button_defaults_def world0_def)
  have st2: "state_outcome remote_state_error (new_button 447 True) world0 = Inl ConversionError"
    by (simp add: state_outcome_def remote_state_error_def State_of_def)
  have led2: "led_outcome remote_state_error (new_button 447 True) world0 = Inr (led_dict (255, 0, 0) (0, 0, 0) Off)"
    using getled_dict_example [of "[''R:GETLED 447 1 255 0 0 0 0 0 OFF'']"]
    by (simp add: led_outcome_def remote_state_error_def getled_line_def)
  note thm1 = fetch_state_survives_failures [OF client, of remote_led_error world0]
  note thm2 = fetch_state_survives_failures [OF client, of remote_state_error world0]
  have r1: "fetch_state remote_led_error (new_button 447 True) world0
        = (Inr [''state''],
           (new_button 447 True)\<lparr>props := Button_defaults(''state'' := Some (StateV Down))\<rparr>,
           \<lparr>sent = [Invoke 447 ''Button.GetState'' [], Raw ''GETLED 447''],
            warnings = [(447, CommandError)]\<rparr>)"
    using thm1 base1 led1 by (simp add: str_int_447 new_button_def world0_def)
  have r2: "fst (fetch_state remote_state_error (new_button 447 True) world0)
        = Inr (fst (update_button (led_dict (255, 0, 0) (0, 0, 0) Off) (new_button 447 True)))"
    using thm2 st2 led2 by simp
  have r3: "sent (snd (snd (fetch_state remote_state_error (new_button 447 True) world0)))
        = [Invoke 447 ''Button.GetState'' [], Raw ''GETLED 447'']"
    using thm2 st2 by (simp add: str_int_447 new_button_def world0_def)
  have names: "fst (update_button (led_dict (255, 0, 0) (0, 0, 0) Off) (new_button 447 True))
      = [''led_active_color'', ''led_inactive_color'', ''led_blink_rate'']"
    by (simp add: update_button_def led_dict_def new_button_def Button_defaults_def)
  from client st1 led1 r1 st2 led2 r2 r3 names show ?thesis by simp
qed

lemma set_state_ok:
  assumes "fst (set_state rem s sw b w) = Inr ()"
  shows "command_client b"
    and "set_state rem s sw b w =
      (Inr (), b, w\<lparr>sent := sent w @ [Invoke (vid b) (if sw then ''Button.SetStateSW'' else ''Button.SetState'') [StateV s]]\<rparr>)"
proof -
  show c: "command_client b"
    using assms by (cases "command_client b") (simp_all add: set_state_def invoke_no_client)
  show "set_state rem s sw b w =
      (Inr (), b, w\<lparr>sent := sent w @ [Invoke (vid b) (if sw then ''Button.SetStateSW'' else ''Button.SetState'') [StateV s]]\<rparr>)"
    using assms by (cases sw) (simp_all add: set_state_def invoke_client [OF c] split: sum.splits)
qed


text \<open>
  Claim C4, as amended. After a successful \<^verbatim>\<open>set_state(Down)\<close>, which sends one INVOKE,
  \<^verbatim>\<open>get_state()\<close> without \<^verbatim>\<open>hw\<close> sends one more request, \<^verbatim>\<open>INVOKE <id> Button.GetState\<close>,
  and returns what the controller's reply to it decodes to: Down when the controller
  answers Down.
\<close>

theorem get_state_after_set_state:
  "fst (set_state rem Down sw b w) = Inr () \<Longrightarrow>
   (case set_state_then_get_state rem Down sw b w of (r, b', w') \<Rightarrow>
      sent w' = sent w @ [Invoke (vid b) (if sw then ''Button.SetStateSW'' else ''Button.SetState'') [StateV Down],
                          Invoke (vid b) ''Button.GetState'' []]
      \<and> r = (case invoke_reply rem (sent w') of Inl e \<Rightarrow> Inl e | Inr tok \<Rightarrow> State_of tok)
      \<and> (invoke_reply rem (sent w') = Inr ''Down'' \<longrightarrow> r = Inr Down))"
proof -
  assume ok: "fst (set_state rem Down sw b w) = Inr ()"
  note set = set_state_ok [OF ok]
  show ?thesis
    unfolding set_state_then_get_state_def set(2)
    by (auto simp: get_state_client [OF set(1)] state_outcome_def State_of_def split: sum.splits)
qed

text \<open>The controller confirms Down: two requests in all, and Down is returned.\<close>

theorem get_state_after_set_state_witness:
  "fst (set_state remote_down Down False (new_button 447 True) world0) = Inr ()
   \<and> sent (snd (snd (set_state_then_get_state remote_down Down False (new_button 447 True) world0)))
        = [Invoke 447 ''Button.SetState'' [StateV Down], Invoke 447 ''Button.GetState'' []]
   \<and> fst (set_state_then_get_state remote_down Down False (new_button 447 True) world0) = Inr Down"
proof -
  have ok: "fst (set_state remote_down Down False (new_button 447 True) world0) = Inr ()"
    by (simp add: set_state_def invoke_def new_button_def remote_down_def world0_def Let_def)
  have reply: "invoke_reply remote_down reqs = Inr ''Down''" for reqs
    by (simp add: remote_down_def)
  show ?thesis
    using ok get_state_after_set_state [OF ok]
    by (simp add: reply State_of_def new_button_def world0_def split_beta)
qed

text \<open>
  Against claim C4 as stated: after a successful \<^verbatim>\<open>set_state(Down)\<close>, \<^verbatim>\<open>get_state()\<close> sends a
  second request even when the controller confirms Down; and it returns the controller's
  answer, Up for a controller that reports Up, not a cached Down.
\<close>

theorem get_state_round_trip_counterexample:
  "fst (set_state remote_down Down False (new_button 447 True) world0) = Inr ()
   \<and> sent (snd (snd (set_state remote_down Down False (new_button 447 True) world0)))
        = [Invoke 447 ''Button.SetState'' [StateV Down]]
   \<and> sent (snd (snd (set_state_then_get_state remote_down Down False (new_button 447 True) world0)))
        = [Invoke 447 ''Button.SetState'' [StateV Down], Invoke 447 ''Button.GetState'' []]
   \<and> fst (set_state remote_up Down False (new_button 447 True) world0) = Inr ()
   \<and> fst (set_state_then_get_state remote_up Down False (new_button 447 True) world0) = Inr Up"
  by (simp add: set_state_then_get_state_def set_state_def get_state_def
      invoke_def new_button_def remote_down_def remote_up_def world0_def Let_def State_of_def)

subsection \<open>The objects of a backup file\<close>










subsection \<open>Lookups of the client\<close>

lemma getitem_loop_none: "\<forall>c \<in> set cs. items c i = None \<Longrightarrow> getitem_loop cs i = Inl KeyError"
  by (induction cs) simp_all

lemma getitem_loop_some:
  "\<exists>c \<in> set cs. items c i \<noteq> None \<Longrightarrow>
   \<exists>c \<in> set cs. \<exists>obj. items c i = Some obj \<and> getitem_loop cs i = Inr obj"
proof (induction cs)
  case Nil
  then show ?case by simp
next
  case (Cons c cs)
  show ?case
  proof (cases "items c i")
    case None
    with Cons.prems have "\<exists>c \<in> set cs. items c i \<noteq> None" by auto
    from Cons.IH [OF this] None show ?thesis by auto
  next
    case (Some obj)
    then show ?thesis by auto
  qed
qed

text \<open>
  Claim C10. \<^verbatim>\<open>vid in client\<close> holds exactly when some controller holds the id; then
  \<^verbatim>\<open>client[vid]\<close> returns the object of a controller that holds it and \<^verbatim>\<open>client.get(vid)\<close>
  returns the same object; otherwise \<^verbatim>\<open>client[vid]\<close> raises \<^verbatim>\<open>KeyError\<close> and
  \<^verbatim>\<open>client.get(vid)\<close> returns \<^verbatim>\<open>None\<close> without raising.
\<close>

theorem lookups_agree:
  "contains v i = (\<exists>c \<in> set (controllers v). items c i \<noteq> None)
   \<and> (contains v i \<longrightarrow>
        (\<exists>c \<in> set (controllers v). \<exists>obj. items c i = Some obj
            \<and> getitem v i = Inr obj \<and> get v i = Inr (Some obj)))
   \<and> (\<not> contains v i \<longrightarrow> getitem v i = Inl KeyError \<and> get v i = Inr None)"
proof -
  have c: "contains v i = (\<exists>c \<in> set (controllers v). items c i \<noteq> None)"
    by (simp add: contains_def list_ex_iff)
  have yes: "\<exists>c \<in> set (controllers v). \<exists>obj. items c i = Some obj
      \<and> getitem v i = Inr obj \<and> get v i = Inr (Some obj)" if "contains v i"
  proof -
    from that c have "\<exists>c \<in> set (controllers v). items c i \<noteq> None" by simp
    from getitem_loop_some [OF this] show ?thesis
      by (auto simp: getitem_def get_def)
  qed
  have no: "getitem v i = Inl KeyError \<and> get v i = Inr None" if "\<not> contains v i"
  proof -
    from that c have "\<forall>c \<in> set (controllers v). items c i = None" by simp
    from getitem_loop_none [OF this] show ?thesis
      by (simp add: getitem_def get_def)
  qed
  from c yes no show ?thesis by blast
qed

text \<open>The populated client: id 447 is found, id 13 is not.\<close>

theorem lookups_agree_witness:
  "contains example_populated 447
   \<and> getitem example_populated 447 = Inr \<lparr>object_vid = 447, vantage_type = ''Button'', object_name = ''Keypad 1''\<rparr>
   \<and> get example_populated 447 = Inr (Some \<lparr>object_vid = 447, vantage_type = ''Button'', object_name = ''Keypad 1''\<rparr>)
   \<and> \<not> contains example_populated 13
   \<and> getitem example_populated 13 = Inl KeyError
   \<and> get example_populated 13 = Inr None"
proof -
  have yes: "contains example_populated 447"
    by (simp add: contains_def example_populated_def inject_def)
  have no: "\<not> contains example_populated 13"
    by (simp add: contains_def example_populated_def inject_def new_ButtonsController_def new_controller_def)
  have g: "getitem example_populated 447 = Inr \<lparr>object_vid = 447, vantage_type = ''Button'', object_name = ''Keypad 1''\<rparr>"
    by (simp add: getitem_def example_populated_def inject_def)
  show ?thesis
    using yes no g lookups_agree [of example_populated 447] lookups_agree [of example_populated 13]
    by auto
qed

subsection \<open>State monitoring\<close>

lemma Controller_enable_state_monitoring_idempotent:
  "Controller_enable_state_monitoring enhanced
     (fst (Controller_enable_state_monitoring enhanced c es))
     (snd (Controller_enable_state_monitoring enhanced c es))
   = Controller_enable_state_monitoring enhanced c es"
  by (simp add: Controller_enable_state_monitoring_def subscribe_status_def subscribe_def split_beta)

text \<open>
  Claim C8 fails for the buttons controller on a firmware with the enhanced log. The first
  call subscribes to the enhanced log and to the category LED; the second call, with no
  call of \<^verbatim>\<open>disable_state_monitoring\<close> between, finds the inherited method idempotent and
  then subscribes to LED once more (buttons.py lines 18 to 22 have no guard).
\<close>

theorem ButtonsController_enable_twice_duplicates_led:
  "enable_state_monitoring True (new_ButtonsController 0) example_stream
     = ((new_ButtonsController 0)\<lparr>status_type := Some OBJECT, status_unsubs := [0, 1]\<rparr>,
        \<lparr>subscriptions = [\<lparr>handle = 0, callback = 0, feed = EnhancedLog\<rparr>,
                          \<lparr>handle = 1, callback = 0, feed = Status [''LED'']\<rparr>],
         next_handle = 2\<rparr>)
   \<and> enable_state_monitoring True
        ((new_ButtonsController 0)\<lparr>status_type := Some OBJECT, status_unsubs := [0, 1]\<rparr>)
        \<lparr>subscriptions = [\<lparr>handle = 0, callback = 0, feed = EnhancedLog\<rparr>,
                          \<lparr>handle = 1, callback = 0, feed = Status [''LED'']\<rparr>],
         next_handle = 2\<rparr>
     = ((new_ButtonsController 0)\<lparr>status_type := Some OBJECT, status_unsubs := [0, 1, 2]\<rparr>,
        \<lparr>subscriptions = [\<lparr>handle = 0, callback = 0, feed = EnhancedLog\<rparr>,
                          \<lparr>handle = 1, callback = 0, feed = Status [''LED'']\<rparr>,
                          \<lparr>handle = 2, callback = 0, feed = Status [''LED'']\<rparr>],
         next_handle = 3\<rparr>)"
  by (simp add: enable_state_monitoring_def ButtonsController_enable_state_monitoring_def
      Controller_enable_state_monitoring_def subscribe_status_def subscribe_def
      new_ButtonsController_def new_controller_def example_stream_def numeral_2_eq_2 numeral_3_eq_3)

subsection \<open>Injection and live discovery\<close>















end
